theory Spec2Isabelle
  imports Main
begin

section \<open>Lowering of expressions to SlithIR\<close>

text \<open>
  A shallow embedding of \<^verbatim>\<open>slither/visitors/slithir/expression_to_slithir.py\<close> and of
  \<^verbatim>\<open>slither/slithir/operations/call.py\<close>. Python objects are values of datatypes,
  the instruction buffer \<^verbatim>\<open>self._result\<close> and the per-node scratch entry
  \<^verbatim>\<open>expression.context[key]\<close> are fields of an explicit state, and every exception
  is a value of the type \<open>error\<close>.
\<close>

subsection \<open>Types, values and operators\<close>

text \<open>
  Solidity types as far as the lowering inspects them. \<open>ArrayType\<close> keeps the length as
  the value string of the constant it was built from; \<open>TypeAlias\<close> keeps its name and its
  underlying type.
\<close>

datatype soltype =
    ElementaryType string
  | ArrayType soltype string
  | TypeAlias string soltype
  | UserDefinedType string

text \<open>
  The objects a scratch entry can hold. The classes themselves are declared outside the
  translated files; a constructor carries exactly the attributes that the translated code
  reads. \<open>NoneV\<close> is Python's \<^verbatim>\<open>None\<close> and \<open>VList\<close> a Python list.
  Temporaries, references and tuples are identified by their index; the attributes that the
  lowering sets on a temporary after creating it live in the state.
\<close>

datatype ir_value =
    NoneV
  | VList "ir_value list"
  | Constant string "soltype option" "string option"
  | TemporaryVariable nat
  | ReferenceVariable nat
  | TupleVariable nat
  | LocalVariable string "soltype option"
  | LocalVariableInitFromTuple string "soltype option" "nat option"
  | StateVariable string "soltype option"
  | SolidityVariable string
  | SolidityVariableComposed string
  | SolidityFunction string
  | Function string "string option list"
  | Contract string "(string \<times> soltype) list" "(string \<times> string) list"
  | CustomError string
  | Enum string int int
  | TypeV soltype

datatype AssignmentOperationType =
    ASSIGN | ASSIGN_OR | ASSIGN_CARET | ASSIGN_AND | ASSIGN_LEFT_SHIFT | ASSIGN_RIGHT_SHIFT
  | ASSIGN_ADDITION | ASSIGN_SUBTRACTION | ASSIGN_MULTIPLICATION | ASSIGN_DIVISION
  | ASSIGN_MODULO

datatype BinaryOperationType =
    POWER | MULTIPLICATION | DIVISION | MODULO | ADDITION | SUBTRACTION | LEFT_SHIFT
  | RIGHT_SHIFT | AND | CARET | OR | LESS | GREATER | LESS_EQUAL | GREATER_EQUAL | EQUAL
  | NOT_EQUAL | ANDAND | OROR
  | DIVISION_SIGNED | MODULO_SIGNED | LESS_SIGNED | GREATER_SIGNED | RIGHT_SHIFT_ARITHMETIC

text \<open>The opcodes of the IR's binary instruction (\<^verbatim>\<open>BinaryType\<close>): there is no signed one.\<close>

datatype BinaryType =
    BT_POWER | BT_MULTIPLICATION | BT_DIVISION | BT_MODULO | BT_ADDITION | BT_SUBTRACTION
  | BT_LEFT_SHIFT | BT_RIGHT_SHIFT | BT_AND | BT_CARET | BT_OR | BT_LESS | BT_GREATER
  | BT_LESS_EQUAL | BT_GREATER_EQUAL | BT_EQUAL | BT_NOT_EQUAL | BT_ANDAND | BT_OROR

datatype UnaryOperationType =
    BANG | TILD | DELETE | PLUSPLUS_PRE | MINUSMINUS_PRE | PLUSPLUS_POST | MINUSMINUS_POST
  | PLUS_PRE | MINUS_PRE

subsection \<open>The base class of call operations\<close>

text \<open>
  \<^verbatim>\<open>class Call(Operation)\<close>: the constructor sets \<^verbatim>\<open>_arguments = []\<close> and
  \<^verbatim>\<open>_names = names\<close>, after asserting that \<^verbatim>\<open>names\<close> is \<^verbatim>\<open>None\<close> or a list,
  which the type \<open>string list option\<close> says already.
\<close>

record Call =
  arguments :: "ir_value list"
  names :: "string list option"

definition Call_init :: "string list option \<Rightarrow> Call" where
  "Call_init ns = \<lparr>arguments = [], names = ns\<rparr>"

definition set_arguments :: "ir_value list \<Rightarrow> Call \<Rightarrow> Call" where
  "set_arguments v c = c\<lparr>arguments := v\<rparr>"

text \<open>\<^verbatim>\<open>can_reenter(self, _callstack=None)\<close> and \<^verbatim>\<open>can_send_eth(self)\<close>.\<close>

definition can_reenter :: "Call \<Rightarrow> ir_value list option \<Rightarrow> bool" where
  "can_reenter c callstack = False"

definition can_send_eth :: "Call \<Rightarrow> bool" where
  "can_send_eth c = False"

subsection \<open>Expressions\<close>

text \<open>
  The expression tree handed to the lowering. Every node carries a number that stands for
  the identity of the Python object: the scratch entry of a node is found by it. The other
  arguments of a constructor are the attributes that the lowering reads:

  \<^item> \<open>AssignmentOperation id expression_left expression_right type expression_return_type\<close>
  \<^item> \<open>BinaryOperation id expression_left expression_right type\<close>
  \<^item> \<open>CallExpression id called arguments type_call call_gas call_value call_salt\<close>
  \<^item> \<open>ConditionalExpression id if_expression then_expression else_expression\<close>
  \<^item> \<open>ElementaryTypeNameExpression id type\<close>
  \<^item> \<open>Identifier id value\<close>
  \<^item> \<open>IndexAccess id expression_left expression_right type\<close>
  \<^item> \<open>Literal id value type subdenomination\<close>
  \<^item> \<open>MemberAccess id member_name expression\<close>
  \<^item> \<open>NewArray id depth array_type\<close>
  \<^item> \<open>NewContract id contract_name call_value call_salt\<close>
  \<^item> \<open>NewElementaryType id type\<close>
  \<^item> \<open>TupleExpression id expressions is_inline_array\<close>
  \<^item> \<open>TypeConversionExpression id expression type\<close> (the expression class
    \<^verbatim>\<open>TypeConversion\<close>; the operation of the same name keeps the name)
  \<^item> \<open>UnaryOperation id expression type\<close>
\<close>

datatype expression =
    AssignmentOperation nat expression expression AssignmentOperationType "soltype option"
  | BinaryOperation nat expression expression BinaryOperationType
  | CallExpression nat expression "expression option list" string
      "expression option" "expression option" "expression option"
  | ConditionalExpression nat expression expression expression
  | ElementaryTypeNameExpression nat soltype
  | Identifier nat ir_value
  | IndexAccess nat expression expression "soltype option"
  | Literal nat string soltype "string option"
  | MemberAccess nat string expression
  | NewArray nat nat soltype
  | NewContract nat string "expression option" "expression option"
  | NewElementaryType nat soltype
  | TupleExpression nat "expression option list" bool
  | TypeConversionExpression nat expression soltype
  | UnaryOperation nat expression UnaryOperationType

fun nid :: "expression \<Rightarrow> nat" where
  "nid (AssignmentOperation n _ _ _ _) = n"
| "nid (BinaryOperation n _ _ _) = n"
| "nid (CallExpression n _ _ _ _ _ _) = n"
| "nid (ConditionalExpression n _ _ _) = n"
| "nid (ElementaryTypeNameExpression n _) = n"
| "nid (Identifier n _) = n"
| "nid (IndexAccess n _ _ _) = n"
| "nid (Literal n _ _ _) = n"
| "nid (MemberAccess n _ _) = n"
| "nid (NewArray n _ _) = n"
| "nid (NewContract n _ _ _) = n"
| "nid (NewElementaryType n _) = n"
| "nid (TupleExpression n _ _) = n"
| "nid (TypeConversionExpression n _ _) = n"
| "nid (UnaryOperation n _ _) = n"

subsection \<open>Instructions\<close>

text \<open>
  The third argument of an \<^verbatim>\<open>Assignment\<close> is a type, an enum, the string
  \<^verbatim>\<open>"uint256"\<close> or \<^verbatim>\<open>None\<close>, depending on the rule that builds it.
\<close>

datatype return_type = RetType soltype | RetEnum ir_value | RetStr string | RetNone

text \<open>
  The operations with the arguments of their constructors, in the constructor's order:
  \<open>TmpCall called nbr_arguments result type_call call_gas call_value call_salt\<close> and
  \<open>TmpNewContract contract_name lvalue call_value call_salt\<close> include the attributes that
  the lowering assigns before appending the instruction, and
  \<open>SolidityCall function nbr_arguments result type_call arguments\<close> the argument list it
  appends to.
\<close>

datatype operation =
    Assignment ir_value ir_value return_type
  | Binary ir_value ir_value ir_value BinaryType
  | Delete ir_value ir_value
  | Index ir_value ir_value ir_value "soltype option"
  | InitArray ir_value ir_value
  | InternalCall ir_value nat ir_value string
  | Member ir_value ir_value ir_value
  | TypeConversion ir_value ir_value soltype
  | Unary ir_value ir_value UnaryOperationType
  | Unpack ir_value ir_value nat
  | Return ir_value
  | SolidityCall ir_value nat ir_value "string list" "ir_value list"
  | Argument ir_value
  | TmpCall ir_value nat ir_value string "ir_value option" "ir_value option" "ir_value option"
  | TmpNewArray nat soltype ir_value
  | TmpNewContract string ir_value "ir_value option" "ir_value option"
  | TmpNewElementaryType soltype ir_value

text \<open>
  An entry of the instruction buffer: the operation and the node given to
  \<^verbatim>\<open>set_expression\<close> (\<open>None\<close> where the rule does not call it). \<^verbatim>\<open>set_node\<close> gives
  every instruction of one lowering the same basic-block node and is left out.
\<close>

type_synonym ir = "operation \<times> nat option"

subsection \<open>Errors, state and environment\<close>

datatype error =
    KeyError | AssertionError | AttributeError | IndexError | SlithIRError
  | SlitherException | TernaryNotConvertible

text \<open>
  \<open>result\<close> is \<^verbatim>\<open>self._result\<close>, \<open>scratch\<close> maps a node to its
  \<^verbatim>\<open>context["expressionToSlithIR"]\<close> entry, the three counters number the temporaries,
  references and tuples created so far, and \<open>tmp_type\<close>, \<open>tmp_location\<close> hold the type
  given to a temporary by \<^verbatim>\<open>set_type\<close> and the location it was created with.
\<close>

record state =
  result :: "ir list"
  scratch :: "nat \<rightharpoonup> ir_value"
  tmp_counter :: nat
  ref_counter :: nat
  tuple_counter :: nat
  tmp_type :: "nat \<rightharpoonup> soltype"
  tmp_location :: "nat \<rightharpoonup> string"

text \<open>The values of Python that constant folding can return, with \<^verbatim>\<open>str\<close> of the others.\<close>

datatype py_value = PyBool bool | PyInt int | PyOther string

text \<open>
  What the lowering takes from code outside the translated files:
  \<^item> \<open>generates_certik_ir\<close>: \<^verbatim>\<open>self._node.compilation_unit.generates_certik_ir\<close>;
  \<^item> \<open>node_is_return\<close>: \<^verbatim>\<open>node.type == NodeType.RETURN\<close>;
  \<^item> \<open>constant_folding\<close>: the value of \<^verbatim>\<open>ConstantFolding(expression, expression.type).result()\<close>,
    or \<open>None\<close> when the constructor raises \<^verbatim>\<open>NotConstant\<close> or \<^verbatim>\<open>AttributeError\<close>;
  \<^item> \<open>elementary_min\<close>, \<open>elementary_max\<close>: \<^verbatim>\<open>ElementaryType(name).min\<close> and \<^verbatim>\<open>.max\<close>,
    \<open>None\<close> when the type has none;
  \<^item> \<open>solidity_return_type\<close>: \<^verbatim>\<open>SolidityFunction(name).return_type\<close>.
\<close>

record env =
  generates_certik_ir :: bool
  node_is_return :: bool
  constant_folding :: "expression \<Rightarrow> py_value option"
  elementary_min :: "string \<Rightarrow> int option"
  elementary_max :: "string \<Rightarrow> int option"
  solidity_return_type :: "string \<Rightarrow> string list"

text \<open>Sequencing: an exception of the first step ends the rule.\<close>

definition on_ok :: "error + 'a \<Rightarrow> ('a \<Rightarrow> error + 'b) \<Rightarrow> error + 'b" where
  "on_ok m f = (case m of Inl e \<Rightarrow> Inl e | Inr x \<Rightarrow> f x)"

subsection \<open>The scratch store\<close>

text \<open>
  \<^verbatim>\<open>get\<close> reads \<^verbatim>\<open>expression.context[key]\<close>, which raises \<^verbatim>\<open>KeyError\<close> when the
  entry is absent, deletes the entry and returns the value.
\<close>

definition get :: "nat \<Rightarrow> state \<Rightarrow> error + ir_value \<times> state" where
  "get k st = (case scratch st k of
     None \<Rightarrow> Inl KeyError
   | Some val \<Rightarrow> Inr (val, st\<lparr>scratch := (scratch st)(k := None)\<rparr>))"

definition get_without_removing :: "nat \<Rightarrow> state \<Rightarrow> error + ir_value" where
  "get_without_removing k st = (case scratch st k of
     None \<Rightarrow> Inl KeyError
   | Some val \<Rightarrow> Inr val)"

definition set_val :: "nat \<Rightarrow> ir_value \<Rightarrow> state \<Rightarrow> state" where
  "set_val k val st = st\<lparr>scratch := (scratch st)(k \<mapsto> val)\<rparr>"

subsection \<open>Creating values and appending instructions\<close>

definition append_ir :: "operation \<Rightarrow> nat option \<Rightarrow> state \<Rightarrow> state" where
  "append_ir operation e st = st\<lparr>result := result st @ [(operation, e)]\<rparr>"

text \<open>
  Modelled from the spec: the classes \<^verbatim>\<open>TemporaryVariable\<close>, \<^verbatim>\<open>ReferenceVariable\<close> and
  \<^verbatim>\<open>TupleVariable\<close> are declared outside the translated files; each creation yields
  "a fresh, uniquely-numbered slot", here the next number of a counter per kind.
\<close>

definition new_temporary :: "string option \<Rightarrow> state \<Rightarrow> ir_value \<times> state" where
  "new_temporary location st =
     (TemporaryVariable (tmp_counter st),
      st\<lparr>tmp_counter := Suc (tmp_counter st),
         tmp_location := (tmp_location st)(tmp_counter st := location)\<rparr>)"

definition new_reference :: "state \<Rightarrow> ir_value \<times> state" where
  "new_reference st = (ReferenceVariable (ref_counter st), st\<lparr>ref_counter := Suc (ref_counter st)\<rparr>)"

definition new_tuple :: "state \<Rightarrow> ir_value \<times> state" where
  "new_tuple st = (TupleVariable (tuple_counter st), st\<lparr>tuple_counter := Suc (tuple_counter st)\<rparr>)"

fun set_type :: "ir_value \<Rightarrow> soltype \<Rightarrow> state \<Rightarrow> state" where
  "set_type (TemporaryVariable i) t st = st\<lparr>tmp_type := (tmp_type st)(i \<mapsto> t)\<rparr>"
| "set_type _ t st = st"

text \<open>
  Modelled from the spec: the class hierarchy of the values is declared outside the
  translated files. \<open>is_Variable\<close> is \<^verbatim>\<open>isinstance(v, Variable)\<close>: constants,
  temporaries, references, tuples and the declared local and state variables are variables;
  the symbols that are "only looked up" (pseudo-variables, functions, contracts, enums) and
  types are not. \<open>type_of\<close> is the attribute \<^verbatim>\<open>.type\<close> of a variable, which Python's
  \<^verbatim>\<open>None\<close> and lists do not have; \<open>name_of\<close> is the attribute \<^verbatim>\<open>.name\<close>.
\<close>

fun is_Variable :: "ir_value \<Rightarrow> bool" where
  "is_Variable (Constant _ _ _) = True"
| "is_Variable (TemporaryVariable _) = True"
| "is_Variable (ReferenceVariable _) = True"
| "is_Variable (TupleVariable _) = True"
| "is_Variable (LocalVariable _ _) = True"
| "is_Variable (LocalVariableInitFromTuple _ _ _) = True"
| "is_Variable (StateVariable _ _) = True"
| "is_Variable _ = False"

fun type_of :: "state \<Rightarrow> ir_value \<Rightarrow> error + soltype option" where
  "type_of st (Constant _ t _) = Inr t"
| "type_of st (TemporaryVariable i) = Inr (tmp_type st i)"
| "type_of st (ReferenceVariable _) = Inr None"
| "type_of st (TupleVariable _) = Inr None"
| "type_of st (LocalVariable _ t) = Inr t"
| "type_of st (LocalVariableInitFromTuple _ t _) = Inr t"
| "type_of st (StateVariable _ t) = Inr t"
| "type_of st _ = Inl AttributeError"

text \<open>Python's \<^verbatim>\<open>str\<close> on integers and on the values of constant folding.\<close>

definition digit :: "nat \<Rightarrow> char" where
  "digit d = ''0123456789'' ! d"

function str_nat :: "nat \<Rightarrow> string" where
  "str_nat n = (if n < 10 then [digit n]
                else str_nat (n div 10) @ [digit (n mod 10)])"
  by pat_completeness auto
termination
  by (relation "measure id") auto

declare str_nat.simps [simp del]

definition str_int :: "int \<Rightarrow> string" where
  "str_int i = (if i < 0 then CHR ''-'' # str_nat (nat (- i)) else str_nat (nat i))"

fun str_py :: "py_value \<Rightarrow> string" where
  "str_py (PyBool b) = (if b then ''True'' else ''False'')"
| "str_py (PyInt i) = str_int i"
| "str_py (PyOther s) = s"

fun name_of :: "ir_value \<Rightarrow> string option" where
  "name_of NoneV = None"
| "name_of (VList _) = None"
| "name_of (Constant v _ _) = Some v"
| "name_of (TemporaryVariable i) = Some (''TMP_'' @ str_nat i)"
| "name_of (ReferenceVariable i) = Some (''REF_'' @ str_nat i)"
| "name_of (TupleVariable i) = Some (''TUPLE_'' @ str_nat i)"
| "name_of (LocalVariable n _) = Some n"
| "name_of (LocalVariableInitFromTuple n _ _) = Some n"
| "name_of (StateVariable n _) = Some n"
| "name_of (SolidityVariable n) = Some n"
| "name_of (SolidityVariableComposed n) = Some n"
| "name_of (SolidityFunction n) = Some n"
| "name_of (Function n _) = Some n"
| "name_of (Contract n _ _) = Some n"
| "name_of (CustomError n) = Some n"
| "name_of (Enum n _ _) = Some n"
| "name_of (TypeV (ElementaryType n)) = Some n"
| "name_of (TypeV (TypeAlias n _)) = Some n"
| "name_of (TypeV (UserDefinedType n)) = Some n"
| "name_of (TypeV (ArrayType _ _)) = None"

subsection \<open>Operator tables and assignments\<close>

text \<open>The dictionaries \<^verbatim>\<open>_binary_to_binary\<close> and \<^verbatim>\<open>_signed_to_unsigned\<close>.\<close>

fun binary_to_binary :: "BinaryOperationType \<Rightarrow> BinaryType option" where
  "binary_to_binary POWER = Some BT_POWER"
| "binary_to_binary MULTIPLICATION = Some BT_MULTIPLICATION"
| "binary_to_binary DIVISION = Some BT_DIVISION"
| "binary_to_binary MODULO = Some BT_MODULO"
| "binary_to_binary ADDITION = Some BT_ADDITION"
| "binary_to_binary SUBTRACTION = Some BT_SUBTRACTION"
| "binary_to_binary LEFT_SHIFT = Some BT_LEFT_SHIFT"
| "binary_to_binary RIGHT_SHIFT = Some BT_RIGHT_SHIFT"
| "binary_to_binary AND = Some BT_AND"
| "binary_to_binary CARET = Some BT_CARET"
| "binary_to_binary OR = Some BT_OR"
| "binary_to_binary LESS = Some BT_LESS"
| "binary_to_binary GREATER = Some BT_GREATER"
| "binary_to_binary LESS_EQUAL = Some BT_LESS_EQUAL"
| "binary_to_binary GREATER_EQUAL = Some BT_GREATER_EQUAL"
| "binary_to_binary EQUAL = Some BT_EQUAL"
| "binary_to_binary NOT_EQUAL = Some BT_NOT_EQUAL"
| "binary_to_binary ANDAND = Some BT_ANDAND"
| "binary_to_binary OROR = Some BT_OROR"
| "binary_to_binary _ = None"

fun signed_to_unsigned :: "BinaryOperationType \<Rightarrow> BinaryType option" where
  "signed_to_unsigned DIVISION_SIGNED = Some BT_DIVISION"
| "signed_to_unsigned MODULO_SIGNED = Some BT_MODULO"
| "signed_to_unsigned LESS_SIGNED = Some BT_LESS"
| "signed_to_unsigned GREATER_SIGNED = Some BT_GREATER"
| "signed_to_unsigned RIGHT_SHIFT_ARITHMETIC = Some BT_RIGHT_SHIFT"
| "signed_to_unsigned _ = None"

fun ret_of :: "soltype option \<Rightarrow> return_type" where
  "ret_of None = RetNone"
| "ret_of (Some t) = RetType t"

text \<open>
  \<^verbatim>\<open>convert_assignment(left, right, t, return_type)\<close>. The eleven members of
  \<^verbatim>\<open>AssignmentOperationType\<close> are all handled, so the closing
  \<^verbatim>\<open>raise SlithIRError\<close> is not reached for a value of this type.
\<close>

fun convert_assignment ::
  "ir_value \<Rightarrow> ir_value \<Rightarrow> AssignmentOperationType \<Rightarrow> soltype option \<Rightarrow> error + operation" where
  "convert_assignment left right ASSIGN return_type = Inr (Assignment left right (ret_of return_type))"
| "convert_assignment left right ASSIGN_OR return_type = Inr (Binary left left right BT_OR)"
| "convert_assignment left right ASSIGN_CARET return_type = Inr (Binary left left right BT_CARET)"
| "convert_assignment left right ASSIGN_AND return_type = Inr (Binary left left right BT_AND)"
| "convert_assignment left right ASSIGN_LEFT_SHIFT return_type = Inr (Binary left left right BT_LEFT_SHIFT)"
| "convert_assignment left right ASSIGN_RIGHT_SHIFT return_type = Inr (Binary left left right BT_RIGHT_SHIFT)"
| "convert_assignment left right ASSIGN_ADDITION return_type = Inr (Binary left left right BT_ADDITION)"
| "convert_assignment left right ASSIGN_SUBTRACTION return_type = Inr (Binary left left right BT_SUBTRACTION)"
| "convert_assignment left right ASSIGN_MULTIPLICATION return_type = Inr (Binary left left right BT_MULTIPLICATION)"
| "convert_assignment left right ASSIGN_DIVISION return_type = Inr (Binary left left right BT_DIVISION)"
| "convert_assignment left right ASSIGN_MODULO return_type = Inr (Binary left left right BT_MODULO)"

subsection \<open>The rule for assignments\<close>

text \<open>
  The loop of the unbox assignment: for every position whose target is not \<^verbatim>\<open>None\<close>,
  the converted assignment of \<^verbatim>\<open>left[idx]\<close> and \<^verbatim>\<open>right[idx]\<close> is appended.
\<close>

fun assign_each ::
  "nat \<Rightarrow> ir_value list \<Rightarrow> ir_value list \<Rightarrow> AssignmentOperationType \<Rightarrow> soltype option
   \<Rightarrow> state \<Rightarrow> error + state" where
  "assign_each n [] rs t rt st = Inr st"
| "assign_each n (l # ls) [] t rt st =
     (if l = NoneV then assign_each n ls [] t rt st else Inl IndexError)"
| "assign_each n (l # ls) (r # rs) t rt st =
     (if l = NoneV then assign_each n ls rs t rt st
      else on_ok (convert_assignment l r t rt)
             (\<lambda>operation. assign_each n ls rs t rt (append_ir operation (Some n) st)))"

fun list_items :: "ir_value \<Rightarrow> ir_value list option" where
  "list_items (VList xs) = Some xs"
| "list_items _ = None"

text \<open>\<^verbatim>\<open>isinstance(v, LocalVariableInitFromTuple) and v.tuple_index is not None\<close>, with the index.\<close>

fun init_tuple_index :: "ir_value \<Rightarrow> nat option" where
  "init_tuple_index (LocalVariableInitFromTuple _ _ tuple_index) = tuple_index"
| "init_tuple_index _ = None"

text \<open>
  The index an unpack selects: the position in the list of targets, replaced by
  \<^verbatim>\<open>tuple_index\<close> when the target is a \<^verbatim>\<open>LocalVariableInitFromTuple\<close> that has one.
\<close>

definition unpack_index :: "nat \<Rightarrow> ir_value \<Rightarrow> nat" where
  "unpack_index idx target =
     (case init_tuple_index target of Some tuple_index \<Rightarrow> tuple_index | None \<Rightarrow> idx)"

fun unpack_each :: "nat \<Rightarrow> nat \<Rightarrow> ir_value list \<Rightarrow> ir_value \<Rightarrow> state \<Rightarrow> state" where
  "unpack_each n idx [] right st = st"
| "unpack_each n idx (l # ls) right st =
     (if l = NoneV then unpack_each n (Suc idx) ls right st
      else unpack_each n (Suc idx) ls right
             (append_ir (Unpack l right (unpack_index idx l)) (Some n) st))"

fun is_TupleVariable :: "ir_value \<Rightarrow> bool" where
  "is_TupleVariable (TupleVariable _) = True"
| "is_TupleVariable _ = False"

text \<open>The branches of \<^verbatim>\<open>_post_assignement_operation\<close> once both values are read.\<close>

definition assign_values ::
  "nat \<Rightarrow> AssignmentOperationType \<Rightarrow> soltype option \<Rightarrow> ir_value \<Rightarrow> ir_value \<Rightarrow> state
   \<Rightarrow> error + state" where
  "assign_values n t rt left right st =
     (case list_items left of
        Some ls \<Rightarrow>
          (case list_items right of
             Some rs \<Rightarrow>
               if length ls = length rs
               then on_ok (assign_each n ls rs t rt st) (\<lambda>st. Inr (set_val n NoneV st))
               else Inl AssertionError
           | None \<Rightarrow>
               if is_TupleVariable right
               then Inr (set_val n NoneV (unpack_each n 0 ls right st))
               else Inl AssertionError)
      | None \<Rightarrow>
          (case (init_tuple_index left, is_TupleVariable right) of
             (Some tuple_index, True) \<Rightarrow>
               Inr (set_val n NoneV (append_ir (Unpack left right tuple_index) (Some n) st))
           | _ \<Rightarrow>
               (case list_items right of
                  Some rs \<Rightarrow>
                    Inr (set_val n left (append_ir (InitArray right left) (Some n) st))
                | None \<Rightarrow>
                    on_ok (convert_assignment left right t rt)
                      (\<lambda>operation. Inr (set_val n left (append_ir operation (Some n) st))))))"

fun post_assignement_operation :: "env \<Rightarrow> expression \<Rightarrow> state \<Rightarrow> error + state" where
  "post_assignement_operation env (AssignmentOperation n expression_left expression_right t rt) st =
     on_ok (get (nid expression_left) st) (\<lambda>(left, st).
     on_ok (get (nid expression_right) st) (\<lambda>(right, st).
     assign_values n t rt left right st))"
| "post_assignement_operation env _ st = Inl AttributeError"

subsection \<open>Constant folding and the rule for binary operations\<close>

text \<open>\<^verbatim>\<open>expression.type in _signed_to_unsigned\<close>: no unary operator is a key of the table.\<close>

fun type_in_signed_to_unsigned :: "expression \<Rightarrow> bool" where
  "type_in_signed_to_unsigned (BinaryOperation _ _ _ t) = (signed_to_unsigned t \<noteq> None)"
| "type_in_signed_to_unsigned _ = False"

fun guessed_type :: "expression \<Rightarrow> py_value \<Rightarrow> soltype" where
  "guessed_type expression const_value =
     (if type_in_signed_to_unsigned expression then ElementaryType ''uint''
      else case const_value of
        PyBool _ \<Rightarrow> ElementaryType ''bool''
      | PyInt _ \<Rightarrow> ElementaryType ''int''
      | PyOther _ \<Rightarrow> ElementaryType ''string'')"

text \<open>\<^verbatim>\<open>_attempt_constant_folding\<close> returns whether it folded, and the state.\<close>

definition attempt_constant_folding :: "env \<Rightarrow> expression \<Rightarrow> state \<Rightarrow> bool \<times> state" where
  "attempt_constant_folding env expression st =
     (case constant_folding env expression of
        None \<Rightarrow> (False, st)
      | Some const_value \<Rightarrow>
          (True, set_val (nid expression)
             (Constant (str_py const_value) (Some (guessed_type expression const_value)) None) st))"

text \<open>The guard of both operator rules: the flag is tested first, then folding is tried.\<close>

definition folded :: "env \<Rightarrow> expression \<Rightarrow> state \<Rightarrow> bool \<times> state" where
  "folded env expression st =
     (if generates_certik_ir env then attempt_constant_folding env expression st else (False, st))"

definition int256 :: soltype where
  "int256 = ElementaryType ''int256''"

definition uint256 :: soltype where
  "uint256 = ElementaryType ''uint256''"

fun lower_binary ::
  "nat \<Rightarrow> BinaryOperationType \<Rightarrow> ir_value \<Rightarrow> ir_value \<Rightarrow> state \<Rightarrow> error + state" where
  "lower_binary n t left right st =
     (let (val, st) = new_temporary None st in
      case signed_to_unsigned t of
        Some unsigned_type \<Rightarrow>
          (let (new_left, st) = new_temporary None st;
               st = set_type new_left int256 st;
               st = append_ir (TypeConversion new_left left int256) (Some n) st;
               (new_right, st) =
                 (if t \<noteq> RIGHT_SHIFT_ARITHMETIC
                  then (let (new_right, st) = new_temporary None st;
                            st = set_type new_right int256 st
                        in (new_right, append_ir (TypeConversion new_right right int256) (Some n) st))
                  else (right, st));
               (new_final, st) = new_temporary None st;
               st = append_ir (Binary new_final new_left new_right unsigned_type) (Some n) st;
               st = set_type val uint256 st;
               st = append_ir (TypeConversion val new_final uint256) (Some n) st
           in Inr (set_val n val st))
      | None \<Rightarrow>
          (case binary_to_binary t of
             None \<Rightarrow> Inl KeyError
           | Some binary_type \<Rightarrow>
               Inr (set_val n val (append_ir (Binary val left right binary_type) (Some n) st))))"

fun post_binary_operation :: "env \<Rightarrow> expression \<Rightarrow> state \<Rightarrow> error + state" where
  "post_binary_operation env (BinaryOperation n expression_left expression_right t) st =
     (case folded env (BinaryOperation n expression_left expression_right t) st of
        (True, st) \<Rightarrow> Inr st
      | (False, st) \<Rightarrow>
          on_ok (get (nid expression_left) st) (\<lambda>(left, st).
          on_ok (get (nid expression_right) st) (\<lambda>(right, st).
          lower_binary n t left right st)))"
| "post_binary_operation env _ st = Inl AttributeError"

subsection \<open>The rule for calls\<close>

text \<open>\<^verbatim>\<open>[get(a) for a in expression.arguments if a]\<close>: absent arguments are skipped.\<close>

fun get_args :: "expression option list \<Rightarrow> state \<Rightarrow> error + ir_value list \<times> state" where
  "get_args [] st = Inr ([], st)"
| "get_args (None # as) st = get_args as st"
| "get_args (Some a # as) st =
     on_ok (get (nid a) st) (\<lambda>(arg, st).
     on_ok (get_args as st) (\<lambda>(args, st). Inr (arg # args, st)))"

fun append_arguments :: "nat \<Rightarrow> ir_value list \<Rightarrow> state \<Rightarrow> state" where
  "append_arguments n [] st = st"
| "append_arguments n (arg # args) st = append_arguments n args (append_ir (Argument arg) (Some n) st)"

text \<open>\<^verbatim>\<open>if e: v = get(e)\<close> for an optional child: \<open>None\<close> when the child is absent.\<close>

fun get_optional :: "expression option \<Rightarrow> state \<Rightarrow> error + ir_value option \<times> state" where
  "get_optional None st = Inr (None, st)"
| "get_optional (Some e) st = on_ok (get (nid e) st) (\<lambda>(v, st). Inr (Some v, st))"

text \<open>
  Modelled from the spec: \<^verbatim>\<open>isinstance(called, Function)\<close> holds for the "known function
  symbol" only; the class \<^verbatim>\<open>SolidityFunction\<close> of the built-in pseudo-functions is not a
  subclass of \<^verbatim>\<open>Function\<close>.
\<close>

fun is_Function :: "ir_value \<Rightarrow> bool" where
  "is_Function (Function _ _) = True"
| "is_Function _ = False"

fun function_returns :: "ir_value \<Rightarrow> string option list" where
  "function_returns (Function _ returns) = returns"
| "function_returns _ = []"

fun alias_of :: "ir_value \<Rightarrow> (string \<times> soltype) option" where
  "alias_of (TypeV (TypeAlias name underlying_type)) = Some (name, underlying_type)"
| "alias_of _ = None"

fun member_name_of :: "expression \<Rightarrow> string option" where
  "member_name_of (MemberAccess _ member_name _) = Some member_name"
| "member_name_of _ = None"

text \<open>\<^verbatim>\<open>type_call.startswith("tuple(") and type_call != "tuple()"\<close>.\<close>

definition returns_tuple :: "string \<Rightarrow> bool" where
  "returns_tuple type_call = (take 6 type_call = ''tuple('' \<and> type_call \<noteq> ''tuple()'')"

text \<open>The second branch's test, with the destination type of the conversion.\<close>

definition wrap_destination :: "ir_value \<Rightarrow> expression \<Rightarrow> ir_value list \<Rightarrow> soltype option" where
  "wrap_destination called expression_called args =
     (case alias_of called of
        None \<Rightarrow> None
      | Some (name, underlying_type) \<Rightarrow>
          (case member_name_of expression_called of
             None \<Rightarrow> None
           | Some member_name \<Rightarrow>
               if member_name \<in> {''wrap'', ''unwrap''} \<and> length args = 1
               then Some (if member_name = ''wrap'' then TypeAlias name underlying_type
                          else underlying_type)
               else None))"

definition address :: soltype where
  "address = ElementaryType ''address''"

text \<open>The branches tested on \<^verbatim>\<open>called.name\<close>, and the placeholder call in the last one.\<close>

definition call_by_name ::
  "nat \<Rightarrow> ir_value \<Rightarrow> string \<Rightarrow> ir_value list \<Rightarrow> string
   \<Rightarrow> expression option \<Rightarrow> expression option \<Rightarrow> expression option \<Rightarrow> state \<Rightarrow> error + state" where
  "call_by_name n called name args type_call e_gas e_value e_salt st =
     (if name = ''caller()'' then
        (let (val, st) = new_temporary None st in
         Inr (set_val n val (append_ir
           (Assignment val (SolidityVariableComposed ''msg.sender'') (RetStr ''uint256'')) None st)))
      else if name = ''origin()'' then
        (let (val, st) = new_temporary None st in
         Inr (set_val n val (append_ir
           (Assignment val (SolidityVariableComposed ''tx.origin'') (RetStr ''uint256'')) None st)))
      else if name = ''extcodesize(uint256)'' then
        (let (val, st) = new_reference st in
         case args of
           [] \<Rightarrow> Inl IndexError
         | arg # _ \<Rightarrow>
             Inr (set_val n val (append_ir (Member arg (Constant ''codesize'' None None) val) None st)))
      else if name = ''selfbalance()'' then
        (let (val, st) = new_temporary None st;
             st = set_type val address st;
             st = append_ir (TypeConversion val (SolidityVariable ''this'') address) None st;
             (val1, st) = new_reference st;
             st = append_ir (Member val (Constant ''balance'' None None) val1) None st
         in Inr (set_val n val1 st))
      else if name = ''address()'' then
        (let (val, st) = new_temporary None st;
             st = set_type val address st;
             st = append_ir (TypeConversion val (SolidityVariable ''this'') address) None st
         in Inr (set_val n val st))
      else if name = ''callvalue()'' then
        (let (val, st) = new_temporary None st in
         Inr (set_val n val (append_ir
           (Assignment val (SolidityVariableComposed ''msg.value'') (RetStr ''uint256'')) None st)))
      else
        (let (val, st) = (if returns_tuple type_call then new_tuple st else new_temporary None st) in
         on_ok (get_optional e_gas st) (\<lambda>(call_gas, st).
         on_ok (get_optional e_value st) (\<lambda>(call_value, st).
         on_ok (get_optional e_salt st) (\<lambda>(call_salt, st).
         Inr (set_val n val (append_ir
           (TmpCall called (length args) val type_call call_gas call_value call_salt)
           (Some n) st)))))))"

fun post_call_expression :: "env \<Rightarrow> expression \<Rightarrow> state \<Rightarrow> error + state" where
  "post_call_expression env
     (CallExpression n expression_called e_arguments type_call e_gas e_value e_salt) st =
     on_ok (get (nid expression_called) st) (\<lambda>(called, st).
     on_ok (get_args e_arguments st) (\<lambda>(args, st).
     let st = append_arguments n args st in
     if is_Function called then
       (if returns_tuple type_call then
          (let (val, st) = new_tuple st in
           Inr (set_val n val (append_ir (InternalCall called (length args) val type_call) (Some n) st)))
        else if length (function_returns called) \<le> 1 then
          (let (val, st) = new_temporary
                 (case function_returns called of [location] \<Rightarrow> location | _ \<Rightarrow> None) st in
           Inr (set_val n val (append_ir (InternalCall called (length args) val type_call) (Some n) st)))
        else Inl AssertionError)
     else
       (case wrap_destination called expression_called args of
          Some dest_type \<Rightarrow>
            (let (val, st) = new_temporary None st in
             case args of
               [] \<Rightarrow> Inl IndexError
             | arg # _ \<Rightarrow>
                 (let st = set_type val dest_type st;
                      st = append_ir (TypeConversion val arg dest_type) (Some n) st
                  in Inr (set_val n val st)))
        | None \<Rightarrow>
            (case name_of called of
               None \<Rightarrow> Inl AttributeError
             | Some name \<Rightarrow> call_by_name n called name args type_call e_gas e_value e_salt st))))"
| "post_call_expression env _ st = Inl AssertionError"

subsection \<open>The rules for the leaves, index access and member access\<close>

fun post_conditional_expression :: "env \<Rightarrow> expression \<Rightarrow> state \<Rightarrow> error + state" where
  "post_conditional_expression env expression st = Inl TernaryNotConvertible"

fun post_elementary_type_name_expression :: "env \<Rightarrow> expression \<Rightarrow> state \<Rightarrow> error + state" where
  "post_elementary_type_name_expression env (ElementaryTypeNameExpression n t) st =
     Inr (set_val n (TypeV t) st)"
| "post_elementary_type_name_expression env _ st = Inl AttributeError"

fun post_identifier :: "env \<Rightarrow> expression \<Rightarrow> state \<Rightarrow> error + state" where
  "post_identifier env (Identifier n v) st = Inr (set_val n v st)"
| "post_identifier env _ st = Inl AttributeError"

fun post_literal :: "env \<Rightarrow> expression \<Rightarrow> state \<Rightarrow> error + state" where
  "post_literal env (Literal n v t subdenomination) st =
     Inr (set_val n (Constant v (Some t) subdenomination) st)"
| "post_literal env _ st = Inl AttributeError"

fun type_value :: "ir_value \<Rightarrow> soltype option" where
  "type_value (TypeV t) = Some t"
| "type_value _ = None"

fun constant_value :: "ir_value \<Rightarrow> string option" where
  "constant_value (Constant v _ _) = Some v"
| "constant_value _ = None"

fun post_index_access :: "env \<Rightarrow> expression \<Rightarrow> state \<Rightarrow> error + state" where
  "post_index_access env (IndexAccess n expression_left expression_right t) st =
     on_ok (get (nid expression_left) st) (\<lambda>(left, st).
     on_ok (get (nid expression_right) st) (\<lambda>(right, st).
     case type_value left of
       Some left_type \<Rightarrow>
         (case constant_value right of
            None \<Rightarrow> Inl AssertionError
          | Some v \<Rightarrow> Inr (set_val n (TypeV (ArrayType left_type v)) st))
     | None \<Rightarrow>
         (let (val, st) = new_reference st;
              (left, st) =
                (case list_items left of
                   Some init_array_right \<Rightarrow>
                     (let (init_array_val, st) = new_temporary None st in
                      (init_array_val, append_ir (InitArray left init_array_val) (Some n) st))
                 | None \<Rightarrow> (left, st))
          in Inr (set_val n val (append_ir (Index val left right t) (Some n) st)))))"
| "post_index_access env _ st = Inl AttributeError"

text \<open>
  The test for \<^verbatim>\<open>type(X).min\<close> and \<^verbatim>\<open>type(X).max\<close> looks at the syntax of the child:
  a call whose callee is the identifier of \<^verbatim>\<open>SolidityFunction("type()")\<close>. The result is
  the list of arguments of that call.
\<close>

fun type_call_arguments :: "expression \<Rightarrow> expression option list option" where
  "type_call_arguments (CallExpression _ (Identifier _ v) e_arguments _ _ _ _) =
     (if v = SolidityFunction ''type()'' then Some e_arguments else None)"
| "type_call_arguments _ = None"

text \<open>
  \<^verbatim>\<open>type_found\<close>, \<^verbatim>\<open>constant_type\<close> and the two bounds \<^verbatim>\<open>type_found.min\<close>,
  \<^verbatim>\<open>type_found.max\<close> for the argument of \<^verbatim>\<open>type()\<close>; only the bound that is asked for
  is evaluated.
\<close>

fun elementary_bound :: "env \<Rightarrow> bool \<Rightarrow> soltype \<Rightarrow> error + int" where
  "elementary_bound env is_min (ElementaryType name) =
     (case (if is_min then elementary_min env name else elementary_max env name) of
        None \<Rightarrow> Inl SlitherException
      | Some b \<Rightarrow> Inr b)"
| "elementary_bound env is_min _ = Inl AttributeError"

fun type_bound :: "env \<Rightarrow> bool \<Rightarrow> expression option \<Rightarrow> error + int \<times> soltype option \<times> return_type" where
  "type_bound env is_min (Some (ElementaryTypeNameExpression _ type_found)) =
     on_ok (elementary_bound env is_min type_found)
       (\<lambda>b. Inr (b, Some type_found, RetType type_found))"
| "type_bound env is_min (Some (Identifier _ (Enum name lo hi))) =
     Inr (if is_min then lo else hi, None, RetEnum (Enum name lo hi))"
| "type_bound env is_min _ = Inl AssertionError"

definition member_min_max ::
  "env \<Rightarrow> nat \<Rightarrow> string \<Rightarrow> expression option list \<Rightarrow> state \<Rightarrow> error + state" where
  "member_min_max env n member_name e_arguments st =
     (case e_arguments of
        [type_expression_found] \<Rightarrow>
          (let (val, st) = new_temporary None st in
           on_ok (type_bound env (member_name = ''min'') type_expression_found)
             (\<lambda>(b, constant_type, type_found).
                Inr (set_val n val (append_ir
                  (Assignment val (Constant (str_int b) constant_type None) type_found) None st))))
      | _ \<Rightarrow> Inl AssertionError)"

fun contract_tables :: "ir_value \<Rightarrow> ((string \<times> soltype) list \<times> (string \<times> string) list) option" where
  "contract_tables (Contract _ user_defined_types custom_errors) =
     Some (user_defined_types, custom_errors)"
| "contract_tables _ = None"

text \<open>The lookups on a contract; \<open>None\<close> when neither table has the member.\<close>

definition contract_member :: "ir_value \<Rightarrow> string \<Rightarrow> ir_value option" where
  "contract_member expr member_name =
     (case contract_tables expr of
        None \<Rightarrow> None
      | Some (user_defined_types, custom_errors) \<Rightarrow>
          (case map_of user_defined_types member_name of
             Some t \<Rightarrow> Some (TypeV t)
           | None \<Rightarrow>
               (case map_of custom_errors member_name of
                  Some e \<Rightarrow> Some (CustomError e)
                | None \<Rightarrow> None)))"

definition member_default :: "env \<Rightarrow> nat \<Rightarrow> string \<Rightarrow> ir_value \<Rightarrow> state \<Rightarrow> error + state" where
  "member_default env n member_name expr st =
     (if is_Variable expr \<and> type_of st expr = Inr (Some address)
         \<and> member_name \<in> {''balance'', ''code'', ''codehash''} then
        (let (val, st) = new_temporary None st;
             name = member_name @ ''(address)''
         in Inr (set_val n val (append_ir
              (SolidityCall (SolidityFunction name) 1 val (solidity_return_type env name) [expr])
              (Some n) st)))
      else if alias_of expr \<noteq> None \<and> member_name \<in> {''wrap'', ''unwrap''} then
        Inr (set_val n expr st)
      else
        (case contract_member expr member_name of
           Some v \<Rightarrow> Inr (set_val n v st)
         | None \<Rightarrow>
             (let (val, st) = new_reference st in
              Inr (set_val n val (append_ir
                (Member expr (Constant member_name None None) val) (Some n) st)))))"

fun post_member_access :: "env \<Rightarrow> expression \<Rightarrow> state \<Rightarrow> error + state" where
  "post_member_access env (MemberAccess n member_name expression) st =
     on_ok (get (nid expression) st) (\<lambda>(expr, st).
     case (if member_name \<in> {''min'', ''max''} then type_call_arguments expression else None) of
       Some e_arguments \<Rightarrow> member_min_max env n member_name e_arguments st
     | None \<Rightarrow> member_default env n member_name expr st)"
| "post_member_access env _ st = Inl AttributeError"

subsection \<open>The rules for constructions, tuples, conversions and unary operations\<close>

fun post_new_array :: "env \<Rightarrow> expression \<Rightarrow> state \<Rightarrow> error + state" where
  "post_new_array env (NewArray n depth array_type) st =
     (let (val, st) = new_temporary None st in
      Inr (set_val n val (append_ir (TmpNewArray depth array_type val) (Some n) st)))"
| "post_new_array env _ st = Inl AttributeError"

fun post_new_contract :: "env \<Rightarrow> expression \<Rightarrow> state \<Rightarrow> error + state" where
  "post_new_contract env (NewContract n contract_name e_value e_salt) st =
     (let (val, st) = new_temporary None st in
      on_ok (get_optional e_value st) (\<lambda>(call_value, st).
      on_ok (get_optional e_salt st) (\<lambda>(call_salt, st).
      Inr (set_val n val (append_ir
        (TmpNewContract contract_name val call_value call_salt) (Some n) st)))))"
| "post_new_contract env _ st = Inl AttributeError"

fun post_new_elementary_type :: "env \<Rightarrow> expression \<Rightarrow> state \<Rightarrow> error + state" where
  "post_new_elementary_type env (NewElementaryType n t) st =
     (let (val, st) = new_temporary None st in
      Inr (set_val n val (append_ir (TmpNewElementaryType t val) (Some n) st)))"
| "post_new_elementary_type env _ st = Inl AttributeError"

text \<open>\<^verbatim>\<open>[get(e) if e else None for e in expression.expressions]\<close>.\<close>

fun get_elements :: "expression option list \<Rightarrow> state \<Rightarrow> error + ir_value list \<times> state" where
  "get_elements [] st = Inr ([], st)"
| "get_elements (None # es) st =
     on_ok (get_elements es st) (\<lambda>(vs, st). Inr (NoneV # vs, st))"
| "get_elements (Some e # es) st =
     on_ok (get (nid e) st) (\<lambda>(v, st).
     on_ok (get_elements es st) (\<lambda>(vs, st). Inr (v # vs, st)))"

fun post_tuple_expression :: "env \<Rightarrow> expression \<Rightarrow> state \<Rightarrow> error + state" where
  "post_tuple_expression env (TupleExpression n es is_inline_array) st =
     on_ok (get_elements es st) (\<lambda>(expressions, st).
     if is_inline_array then
       (let (temp_var, st) = new_temporary None st in
        Inr (set_val n temp_var (append_ir (InitArray (VList expressions) temp_var) None st)))
     else
       (case expressions of
          [val] \<Rightarrow> Inr (set_val n val st)
        | _ \<Rightarrow> Inr (set_val n (VList expressions) st)))"
| "post_tuple_expression env _ st = Inl AttributeError"

fun post_type_conversion :: "env \<Rightarrow> expression \<Rightarrow> state \<Rightarrow> error + state" where
  "post_type_conversion env (TypeConversionExpression n expression t) st =
     on_ok (get (nid expression) st) (\<lambda>(expr, st).
     let (val, st) = new_temporary None st;
         st = set_type val t st
     in Inr (set_val n val (append_ir (TypeConversion val expr t) (Some n) st)))"
| "post_type_conversion env _ st = Inl AttributeError"

text \<open>
  The branches of \<^verbatim>\<open>_post_unary_operation\<close> once the operand is read. The nine members
  of \<^verbatim>\<open>UnaryOperationType\<close> are all handled, so the closing \<^verbatim>\<open>raise SlithIRError\<close>
  is not reached for a value of this type.
\<close>

fun lower_unary :: "nat \<Rightarrow> UnaryOperationType \<Rightarrow> ir_value \<Rightarrow> state \<Rightarrow> error + state" where
  "lower_unary n BANG v st =
     (let (lvalue, st) = new_temporary None st in
      Inr (set_val n lvalue (append_ir (Unary lvalue v BANG) (Some n) st)))"
| "lower_unary n TILD v st =
     (let (lvalue, st) = new_temporary None st in
      Inr (set_val n lvalue (append_ir (Unary lvalue v TILD) (Some n) st)))"
| "lower_unary n DELETE v st =
     Inr (set_val n v (append_ir (Delete v v) (Some n) st))"
| "lower_unary n PLUSPLUS_PRE v st =
     on_ok (type_of st v) (\<lambda>t.
     Inr (set_val n v (append_ir (Binary v v (Constant ''1'' t None) BT_ADDITION) (Some n) st)))"
| "lower_unary n MINUSMINUS_PRE v st =
     on_ok (type_of st v) (\<lambda>t.
     Inr (set_val n v (append_ir (Binary v v (Constant ''1'' t None) BT_SUBTRACTION) (Some n) st)))"
| "lower_unary n PLUSPLUS_POST v st =
     (let (lvalue, st) = new_temporary None st in
      on_ok (type_of st v) (\<lambda>t.
      let st = append_ir (Assignment lvalue v (ret_of t)) (Some n) st;
          st = append_ir (Binary v v (Constant ''1'' t None) BT_ADDITION) (Some n) st
      in Inr (set_val n lvalue st)))"
| "lower_unary n MINUSMINUS_POST v st =
     (let (lvalue, st) = new_temporary None st in
      on_ok (type_of st v) (\<lambda>t.
      let st = append_ir (Assignment lvalue v (ret_of t)) (Some n) st;
          st = append_ir (Binary v v (Constant ''1'' t None) BT_SUBTRACTION) (Some n) st
      in Inr (set_val n lvalue st)))"
| "lower_unary n PLUS_PRE v st = Inr (set_val n v st)"
| "lower_unary n MINUS_PRE v st =
     (let (lvalue, st) = new_temporary None st in
      on_ok (type_of st v) (\<lambda>t.
      Inr (set_val n lvalue (append_ir (Binary lvalue (Constant ''0'' t None) v BT_SUBTRACTION)
        (Some n) st))))"

fun post_unary_operation :: "env \<Rightarrow> expression \<Rightarrow> state \<Rightarrow> error + state" where
  "post_unary_operation env (UnaryOperation n expression t) st =
     (case folded env (UnaryOperation n expression t) st of
        (True, st) \<Rightarrow> Inr st
      | (False, st) \<Rightarrow>
          on_ok (get (nid expression) st) (\<lambda>(v, st). lower_unary n t v st))"
| "post_unary_operation env _ st = Inl AttributeError"

subsection \<open>The walk and the entry point\<close>

text \<open>
  Modelled from the spec: the base class \<^verbatim>\<open>ExpressionVisitor\<close> with its method
  \<^verbatim>\<open>_visit_expression\<close> is not among the translated files. "Dispatch is a post-order
  walk: children are lowered first (their node-to-value slots populated), then a
  node-type-specific rule runs." The children of a node are the sub-expressions whose
  entries its rule reads: the operands from left to right; for a call the callee, each
  present argument "in source order" and then the modifiers that are present, the value,
  the gas and the salt; for a contract construction the "optional value/salt".
\<close>

function visit_expression :: "env \<Rightarrow> expression \<Rightarrow> state \<Rightarrow> error + state"
  and visit_optional :: "env \<Rightarrow> expression option \<Rightarrow> state \<Rightarrow> error + state"
  and visit_each :: "env \<Rightarrow> expression option list \<Rightarrow> state \<Rightarrow> error + state"
where
  "visit_expression env (AssignmentOperation n l r t rt) st =
     on_ok (visit_expression env l st) (\<lambda>st.
     on_ok (visit_expression env r st) (\<lambda>st.
     post_assignement_operation env (AssignmentOperation n l r t rt) st))"
| "visit_expression env (BinaryOperation n l r t) st =
     on_ok (visit_expression env l st) (\<lambda>st.
     on_ok (visit_expression env r st) (\<lambda>st.
     post_binary_operation env (BinaryOperation n l r t) st))"
| "visit_expression env (CallExpression n c as tc g v s) st =
     on_ok (visit_expression env c st) (\<lambda>st.
     on_ok (visit_each env as st) (\<lambda>st.
     on_ok (visit_optional env v st) (\<lambda>st.
     on_ok (visit_optional env g st) (\<lambda>st.
     on_ok (visit_optional env s st) (\<lambda>st.
     post_call_expression env (CallExpression n c as tc g v s) st)))))"
| "visit_expression env (ConditionalExpression n c a b) st =
     on_ok (visit_expression env c st) (\<lambda>st.
     on_ok (visit_expression env a st) (\<lambda>st.
     on_ok (visit_expression env b st) (\<lambda>st.
     post_conditional_expression env (ConditionalExpression n c a b) st)))"
| "visit_expression env (ElementaryTypeNameExpression n t) st =
     post_elementary_type_name_expression env (ElementaryTypeNameExpression n t) st"
| "visit_expression env (Identifier n v) st = post_identifier env (Identifier n v) st"
| "visit_expression env (IndexAccess n l r t) st =
     on_ok (visit_expression env l st) (\<lambda>st.
     on_ok (visit_expression env r st) (\<lambda>st.
     post_index_access env (IndexAccess n l r t) st))"
| "visit_expression env (Literal n v t sub) st = post_literal env (Literal n v t sub) st"
| "visit_expression env (MemberAccess n m e) st =
     on_ok (visit_expression env e st) (\<lambda>st.
     post_member_access env (MemberAccess n m e) st)"
| "visit_expression env (NewArray n d t) st = post_new_array env (NewArray n d t) st"
| "visit_expression env (NewContract n c v s) st =
     on_ok (visit_optional env v st) (\<lambda>st.
     on_ok (visit_optional env s st) (\<lambda>st.
     post_new_contract env (NewContract n c v s) st))"
| "visit_expression env (NewElementaryType n t) st =
     post_new_elementary_type env (NewElementaryType n t) st"
| "visit_expression env (TupleExpression n es a) st =
     on_ok (visit_each env es st) (\<lambda>st.
     post_tuple_expression env (TupleExpression n es a) st)"
| "visit_expression env (TypeConversionExpression n e t) st =
     on_ok (visit_expression env e st) (\<lambda>st.
     post_type_conversion env (TypeConversionExpression n e t) st)"
| "visit_expression env (UnaryOperation n e t) st =
     on_ok (visit_expression env e st) (\<lambda>st.
     post_unary_operation env (UnaryOperation n e t) st)"
| "visit_optional env None st = Inr st"
| "visit_optional env (Some e) st = visit_expression env e st"
| "visit_each env [] st = Inr st"
| "visit_each env (e # es) st =
     on_ok (visit_optional env e st) (\<lambda>st. visit_each env es st)"
  by pat_completeness auto
termination
  by (relation "measure (\<lambda>x. case x of
        Inl (_, e, _) \<Rightarrow> size e
      | Inr (Inl (_, oe, _)) \<Rightarrow> size_option size oe
      | Inr (Inr (_, es, _)) \<Rightarrow> size_list (size_option size) es)") auto

text \<open>
  The constructor \<^verbatim>\<open>ExpressionToSlithIR(expression, node)\<close>: the buffer starts empty,
  the expression is visited, and only when the node is a return node is the value of the
  whole expression read and wrapped into a \<^verbatim>\<open>Return\<close>.
\<close>

definition ExpressionToSlithIR :: "env \<Rightarrow> expression \<Rightarrow> state \<Rightarrow> error + state" where
  "ExpressionToSlithIR env expression st =
     on_ok (visit_expression env expression (st\<lparr>result := []\<rparr>)) (\<lambda>st.
     if node_is_return env
     then on_ok (get (nid expression) st)
            (\<lambda>(v, st). Inr (append_ir (Return v) (Some (nid expression)) st))
     else Inr st)"

subsection \<open>Sample inputs\<close>

text \<open>
  An environment and a state for the concrete instances below: folding off, an ordinary
  node, the bounds of two elementary types, and nothing lowered so far.
\<close>

definition plain_env :: env where
  "plain_env = \<lparr>generates_certik_ir = False, node_is_return = False,
     constant_folding = (\<lambda>_. None),
     elementary_min = (\<lambda>name. if name \<in> {''uint8'', ''uint256''} then Some 0 else None),
     elementary_max = (\<lambda>name. if name = ''uint8'' then Some 255
                               else if name = ''uint256'' then Some (2 ^ 256 - 1) else None),
     solidity_return_type = (\<lambda>name. if name = ''balance(address)'' then [''uint256''] else [])\<rparr>"

definition initial_state :: state where
  "initial_state = \<lparr>result = [], scratch = Map.empty, tmp_counter = 0, ref_counter = 0,
     tuple_counter = 0, tmp_type = Map.empty, tmp_location = Map.empty\<rparr>"

text \<open>Three variables of a signed type and two of an unsigned type.\<close>

definition var_x :: ir_value where
  "var_x = LocalVariable ''x'' (Some int256)"

definition var_y :: ir_value where
  "var_y = LocalVariable ''y'' (Some int256)"

definition var_a :: ir_value where
  "var_a = LocalVariable ''a'' (Some uint256)"

definition var_c :: ir_value where
  "var_c = LocalVariable ''c'' (Some uint256)"

definition var_v :: ir_value where
  "var_v = LocalVariable ''v'' (Some uint256)"

definition var_dst :: ir_value where
  "var_dst = LocalVariable ''dst'' (Some address)"

text \<open>\<^verbatim>\<open>type(uint8).max\<close>.\<close>

definition type_uint8_max :: expression where
  "type_uint8_max =
     MemberAccess 4 ''max''
       (CallExpression 3 (Identifier 1 (SolidityFunction ''type()''))
          [Some (ElementaryTypeNameExpression 2 (ElementaryType ''uint8''))]
          ''type(uint8)'' None None None)"

text \<open>
  \<^verbatim>\<open>dst.call.value(v)("")\<close>: the value is passed by a call of the member \<^verbatim>\<open>value\<close>, so
  neither call expression has a \<^verbatim>\<open>call_value\<close>; and \<^verbatim>\<open>dst.call{value: v}("")\<close>, where
  the call expression has it.
\<close>

definition empty_string :: expression where
  "empty_string = Literal 6 [] (ElementaryType ''string'') None"

definition legacy_value_call :: expression where
  "legacy_value_call =
     CallExpression 7
       (CallExpression 5
          (MemberAccess 3 ''value'' (MemberAccess 2 ''call'' (Identifier 1 var_dst)))
          [Some (Identifier 4 var_v)] ''function (bytes memory) payable returns (bool,bytes memory)''
          None None None)
       [Some empty_string] ''tuple(bool,bytes)'' None None None"

definition option_value_call :: expression where
  "option_value_call =
     CallExpression 7 (MemberAccess 2 ''call'' (Identifier 1 var_dst))
       [Some empty_string] ''tuple(bool,bytes)'' None (Some (Identifier 4 var_v)) None"

text \<open>
  The sum and the comparison of the literals 1 and 2 and the negation of the literal 6, and
  an environment with folding on whose folder answers 3, true and -6 for them.
\<close>

definition one_plus_two :: expression where
  "one_plus_two =
     BinaryOperation 3 (Literal 1 ''1'' uint256 None) (Literal 2 ''2'' uint256 None) ADDITION"

definition one_less_two :: expression where
  "one_less_two =
     BinaryOperation 3 (Literal 1 ''1'' uint256 None) (Literal 2 ''2'' uint256 None) LESS"

definition minus_six :: expression where
  "minus_six = UnaryOperation 2 (Literal 1 ''6'' uint256 None) MINUS_PRE"

definition folding_env :: env where
  "folding_env = plain_env\<lparr>generates_certik_ir := True,
     constant_folding := (\<lambda>e. if e = one_plus_two then Some (PyInt 3)
                              else if e = one_less_two then Some (PyBool True)
                              else if e = minus_six then Some (PyInt (- 6)) else None)\<rparr>"

text \<open>
  \<^verbatim>\<open>f{value: v}()\<close> for a function \<open>f\<close> of the contract: the rule lowers the call to an
  internal call and does not look at the option.
\<close>

definition internal_value_call :: expression where
  "internal_value_call =
     CallExpression 3 (Identifier 1 (Function ''f'' [None])) [] ''uint256''
       None (Some (Identifier 2 var_v)) None"

text \<open>A return node, and the sum of two variables.\<close>

definition return_env :: env where
  "return_env = plain_env\<lparr>node_is_return := True\<rparr>"

definition a_plus_c :: expression where
  "a_plus_c = BinaryOperation 3 (Identifier 1 var_a) (Identifier 2 var_c) ADDITION"

subsection \<open>Notions used in the statements\<close>

text \<open>The instructions and the value of a node that a run has produced, if it succeeded.\<close>

definition emitted :: "error + state \<Rightarrow> ir list" where
  "emitted r = (case r of Inl _ \<Rightarrow> [] | Inr st \<Rightarrow> result st)"

definition recorded :: "nat \<Rightarrow> error + state \<Rightarrow> ir_value option" where
  "recorded k r = (case r of Inl _ \<Rightarrow> None | Inr st \<Rightarrow> scratch st k)"

text \<open>The members of a list of optional children that are there.\<close>

fun present :: "'a option list \<Rightarrow> 'a list" where
  "present [] = []"
| "present (None # xs) = present xs"
| "present (Some x # xs) = x # present xs"

text \<open>The state with the scratch entries of a set of nodes removed.\<close>

definition cleared :: "nat set \<Rightarrow> state \<Rightarrow> state" where
  "cleared S st = st\<lparr>scratch := (\<lambda>k. if k \<in> S then None else scratch st k)\<rparr>"

text \<open>
  The nodes of an expression, and of an optional child and of a list of optional children:
  distinct Python objects are nodes whose numbers are distinct.
\<close>

function ids :: "expression \<Rightarrow> nat list"
  and ids_optional :: "expression option \<Rightarrow> nat list"
  and ids_each :: "expression option list \<Rightarrow> nat list"
where
  "ids (AssignmentOperation n l r t rt) = n # ids l @ ids r"
| "ids (BinaryOperation n l r t) = n # ids l @ ids r"
| "ids (CallExpression n c as tc g v s) =
     n # ids c @ ids_each as @ ids_optional g @ ids_optional v @ ids_optional s"
| "ids (ConditionalExpression n c a b) = n # ids c @ ids a @ ids b"
| "ids (ElementaryTypeNameExpression n t) = [n]"
| "ids (Identifier n v) = [n]"
| "ids (IndexAccess n l r t) = n # ids l @ ids r"
| "ids (Literal n v t sub) = [n]"
| "ids (MemberAccess n m e) = n # ids e"
| "ids (NewArray n d t) = [n]"
| "ids (NewContract n c v s) = n # ids_optional v @ ids_optional s"
| "ids (NewElementaryType n t) = [n]"
| "ids (TupleExpression n es a) = n # ids_each es"
| "ids (TypeConversionExpression n e t) = n # ids e"
| "ids (UnaryOperation n e t) = n # ids e"
| "ids_optional None = []"
| "ids_optional (Some e) = ids e"
| "ids_each [] = []"
| "ids_each (e # es) = ids_optional e @ ids_each es"
  by pat_completeness auto
termination
  by (relation "measure (\<lambda>x. case x of
        Inl e \<Rightarrow> size e
      | Inr (Inl oe) \<Rightarrow> size_option size oe
      | Inr (Inr es) \<Rightarrow> size_list (size_option size) es)") auto

text \<open>
  The nodes that are the gas, value or salt modifier of a call expression somewhere in the
  expression. Only the placeholder branch of the rule for calls reads their entries.
\<close>

function call_modifiers :: "expression \<Rightarrow> nat list"
  and call_modifiers_optional :: "expression option \<Rightarrow> nat list"
  and call_modifiers_each :: "expression option list \<Rightarrow> nat list"
where
  "call_modifiers (AssignmentOperation n l r t rt) = call_modifiers l @ call_modifiers r"
| "call_modifiers (BinaryOperation n l r t) = call_modifiers l @ call_modifiers r"
| "call_modifiers (CallExpression n c as tc g v s) =
     map nid (present [g, v, s]) @ call_modifiers c @ call_modifiers_each as
       @ call_modifiers_optional g @ call_modifiers_optional v @ call_modifiers_optional s"
| "call_modifiers (ConditionalExpression n c a b) =
     call_modifiers c @ call_modifiers a @ call_modifiers b"
| "call_modifiers (ElementaryTypeNameExpression n t) = []"
| "call_modifiers (Identifier n v) = []"
| "call_modifiers (IndexAccess n l r t) = call_modifiers l @ call_modifiers r"
| "call_modifiers (Literal n v t sub) = []"
| "call_modifiers (MemberAccess n m e) = call_modifiers e"
| "call_modifiers (NewArray n d t) = []"
| "call_modifiers (NewContract n c v s) = call_modifiers_optional v @ call_modifiers_optional s"
| "call_modifiers (NewElementaryType n t) = []"
| "call_modifiers (TupleExpression n es a) = call_modifiers_each es"
| "call_modifiers (TypeConversionExpression n e t) = call_modifiers e"
| "call_modifiers (UnaryOperation n e t) = call_modifiers e"
| "call_modifiers_optional None = []"
| "call_modifiers_optional (Some e) = call_modifiers e"
| "call_modifiers_each [] = []"
| "call_modifiers_each (e # es) = call_modifiers_optional e @ call_modifiers_each es"
  by pat_completeness auto
termination
  by (relation "measure (\<lambda>x. case x of
        Inl e \<Rightarrow> size e
      | Inr (Inl oe) \<Rightarrow> size_option size oe
      | Inr (Inr es) \<Rightarrow> size_list (size_option size) es)") auto

text \<open>
  Three relations between the scratch store before and after a step: the step only writes
  the entry of \<open>n\<close>; the step removes the entries of \<open>R\<close>, possibly some of \<open>M\<close>, and
  writes the entry of \<open>n\<close>; the step changes no entry outside \<open>S\<close> and leaves no entry
  inside \<open>S\<close> except for the nodes in \<open>C\<close>.
\<close>

definition sets_only :: "nat \<Rightarrow> state \<Rightarrow> state \<Rightarrow> bool" where
  "sets_only n st st' \<longleftrightarrow> (\<exists>v. scratch st' = (scratch st)(n \<mapsto> v))"

definition writes :: "nat \<Rightarrow> nat set \<Rightarrow> nat set \<Rightarrow> state \<Rightarrow> state \<Rightarrow> bool" where
  "writes n R M st st' \<longleftrightarrow>
     (\<exists>D v. R \<subseteq> D \<and> D \<subseteq> R \<union> M \<and> scratch st' = (scratch (cleared D st))(n \<mapsto> v))"

definition kept :: "nat set \<Rightarrow> nat set \<Rightarrow> state \<Rightarrow> state \<Rightarrow> bool" where
  "kept S C st st' \<longleftrightarrow>
     (\<forall>k. k \<notin> S \<longrightarrow> scratch st' k = scratch st k) \<and> (\<forall>k \<in> S. k \<notin> C \<longrightarrow> scratch st' k = None)"

text \<open>
  The placeholder call instruction, and whether a list of instructions holds the
  placeholder call of the call node \<open>c\<close>.
\<close>

fun is_TmpCall :: "operation \<Rightarrow> bool" where
  "is_TmpCall (TmpCall called nbr val type_call call_gas call_value call_salt) = True"
| "is_TmpCall _ = False"

definition placeholder_at :: "nat \<Rightarrow> ir list \<Rightarrow> bool" where
  "placeholder_at c irs = list_ex (\<lambda>x. is_TmpCall (fst x) \<and> snd x = Some c) irs"

text \<open>
  The pairs of a call node and the root of one of its gas, value or salt modifiers, for
  every call expression in the expression.
\<close>

function call_options :: "expression \<Rightarrow> (nat \<times> nat) list"
  and call_options_optional :: "expression option \<Rightarrow> (nat \<times> nat) list"
  and call_options_each :: "expression option list \<Rightarrow> (nat \<times> nat) list"
where
  "call_options (AssignmentOperation n l r t rt) = call_options l @ call_options r"
| "call_options (BinaryOperation n l r t) = call_options l @ call_options r"
| "call_options (CallExpression n c as tc g v s) =
     map (\<lambda>m. (n, nid m)) (present [g, v, s]) @ call_options c @ call_options_each as
       @ call_options_optional g @ call_options_optional v @ call_options_optional s"
| "call_options (ConditionalExpression n c a b) =
     call_options c @ call_options a @ call_options b"
| "call_options (ElementaryTypeNameExpression n t) = []"
| "call_options (Identifier n v) = []"
| "call_options (IndexAccess n l r t) = call_options l @ call_options r"
| "call_options (Literal n v t sub) = []"
| "call_options (MemberAccess n m e) = call_options e"
| "call_options (NewArray n d t) = []"
| "call_options (NewContract n c v s) = call_options_optional v @ call_options_optional s"
| "call_options (NewElementaryType n t) = []"
| "call_options (TupleExpression n es a) = call_options_each es"
| "call_options (TypeConversionExpression n e t) = call_options e"
| "call_options (UnaryOperation n e t) = call_options e"
| "call_options_optional None = []"
| "call_options_optional (Some e) = call_options e"
| "call_options_each [] = []"
| "call_options_each (e # es) = call_options_optional e @ call_options_each es"
  by pat_completeness auto
termination
  by (relation "measure (\<lambda>x. case x of
        Inl e \<Rightarrow> size e
      | Inr (Inl oe) \<Rightarrow> size_option size oe
      | Inr (Inr es) \<Rightarrow> size_list (size_option size) es)") auto

text \<open>
  Three more relations between the states before and after a step. The instructions the
  step appended all carry a node of \<open>S\<close> or none. The rule of the node \<open>n\<close> appended
  instructions of \<open>n\<close> only and, if the placeholder call of \<open>n\<close> is among them, left no
  entry of \<open>M\<close>. The walk of the nodes \<open>S\<close> appended instructions of \<open>S\<close> only and left
  no entry of a modifier whose call it lowered to a placeholder call.
\<close>

definition tagged_in :: "nat set \<Rightarrow> ir list \<Rightarrow> bool" where
  "tagged_in S irs \<longleftrightarrow> (\<forall>x \<in> set irs. set_option (snd x) \<subseteq> S)"

definition emits :: "nat \<Rightarrow> nat set \<Rightarrow> state \<Rightarrow> state \<Rightarrow> bool" where
  "emits n M st st' \<longleftrightarrow>
     (\<exists>new. result st' = result st @ new \<and> tagged_in {n} new
        \<and> (placeholder_at n new \<longrightarrow> (\<forall>k \<in> M - {n}. scratch st' k = None)))"

definition consumed :: "nat set \<Rightarrow> (nat \<times> nat) set \<Rightarrow> state \<Rightarrow> state \<Rightarrow> bool" where
  "consumed S P st st' \<longleftrightarrow>
     fst ` P \<subseteq> S \<and> snd ` P \<subseteq> S
     \<and> (\<exists>new. result st' = result st @ new \<and> tagged_in S new
          \<and> (\<forall>c k. (c, k) \<in> P \<longrightarrow> placeholder_at c new \<longrightarrow> scratch st' k = None))"

section \<open>Properties\<close>

subsection \<open>Auxiliary facts\<close>

text \<open>Sequencing, reads of present entries, and the loops of the assignment rule.\<close>

lemma on_ok_Inr [simp]: "on_ok (Inr x) f = f x"
  by (simp add: on_ok_def)

lemma on_ok_Inl [simp]: "on_ok (Inl e) f = Inl e"
  by (simp add: on_ok_def)

lemma get_present:
  "scratch st k = Some v \<Longrightarrow> get k st = Inr (v, st\<lparr>scratch := (scratch st)(k := None)\<rparr>)"
  by (simp add: get_def)

lemma not_folded:
  "\<not> generates_certik_ir env \<or> constant_folding env e = None \<Longrightarrow> folded env e st = (False, st)"
  by (auto simp: folded_def attempt_constant_folding_def)

lemma type_of_scratch [simp]: "type_of (st\<lparr>scratch := s\<rparr>) v = type_of st v"
  by (cases v) simp_all

lemma type_of_new_temporary [simp]:
  "type_of (st\<lparr>tmp_counter := c, tmp_location := l\<rparr>) v = type_of st v"
  by (cases v) simp_all

lemma unpack_each_result:
  "result (unpack_each n idx ls right st) = result st @
     map (\<lambda>(i, l). (Unpack l right (unpack_index i l), Some n))
       (filter (\<lambda>(i, l). l \<noteq> NoneV) (enumerate idx ls))"
  by (induction ls arbitrary: idx st) (simp_all add: append_ir_def)

lemma unpack_each_scratch [simp]: "scratch (unpack_each n idx ls right st) = scratch st"
  by (induction ls arbitrary: idx st) (simp_all add: append_ir_def)

lemma convert_assignment_total: "\<exists>operation. convert_assignment l r t rt = Inr operation"
  by (cases t) simp_all

lemma assign_each_total:
  "length ls = length rs \<Longrightarrow> \<exists>st'. assign_each n ls rs t rt st = Inr st' \<and> scratch st' = scratch st"
proof (induction ls rs arbitrary: st rule: list_induct2)
  case Nil
  then show ?case by simp
next
  case (Cons l ls r rs)
  obtain operation where c: "convert_assignment l r t rt = Inr operation"
    using convert_assignment_total by blast
  from Cons.IH[of st] Cons.IH[of "append_ir operation (Some n) st"] c
  show ?case by (auto simp: append_ir_def)
qed

lemma assign_values_list_list:
  "length ls = length rs \<Longrightarrow>
   \<exists>st'. assign_values n t rt (VList ls) (VList rs) st = Inr st' \<and> scratch st' n = Some NoneV"
  using assign_each_total[of ls rs n t rt st]
  by (auto simp: assign_values_def set_val_def)

lemma assign_values_list_tuple:
  "is_TupleVariable right \<Longrightarrow>
   \<exists>st'. assign_values n t rt (VList ls) right st = Inr st' \<and> scratch st' n = Some NoneV"
  by (cases right) (simp_all add: assign_values_def set_val_def)

lemma assign_values_single_unpack:
  "init_tuple_index left \<noteq> None \<Longrightarrow> is_TupleVariable right \<Longrightarrow>
   \<exists>st'. assign_values n t rt left right st = Inr st' \<and> scratch st' n = Some NoneV"
  by (cases left) (auto simp: assign_values_def set_val_def)

lemma assign_values_plain:
  "list_items left = None \<Longrightarrow> \<not> (init_tuple_index left \<noteq> None \<and> is_TupleVariable right) \<Longrightarrow>
   \<exists>st'. assign_values n t rt left right st = Inr st' \<and> scratch st' n = Some left"
  using convert_assignment_total[of left right t rt]
  by (auto simp: assign_values_def set_val_def append_ir_def split: option.splits bool.splits)

text \<open>Reading the values of present children from the scratch store.\<close>

lemma cleared_fields [simp]:
  "result (cleared S st) = result st"
  "tmp_counter (cleared S st) = tmp_counter st"
  "ref_counter (cleared S st) = ref_counter st"
  "tuple_counter (cleared S st) = tuple_counter st"
  "tmp_type (cleared S st) = tmp_type st"
  "tmp_location (cleared S st) = tmp_location st"
  "scratch (cleared S st) k = (if k \<in> S then None else scratch st k)"
  by (simp_all add: cleared_def)

lemma cleared_empty [simp]: "cleared {} st = st"
  by (simp add: cleared_def)

lemma cleared_cleared [simp]: "cleared S (cleared T st) = cleared (S \<union> T) st"
  by (auto simp: cleared_def fun_eq_iff)

lemma get_cleared: "scratch st k = Some v \<Longrightarrow> get k st = Inr (v, cleared {k} st)"
  by (auto simp: get_def cleared_def fun_eq_iff intro!: arg_cong[where f="\<lambda>s. st\<lparr>scratch := s\<rparr>"])

lemma get_args_present:
  "distinct (map nid (present as)) \<Longrightarrow>
   list_all2 (\<lambda>a x. scratch st (nid a) = Some x) (present as) args \<Longrightarrow>
   get_args as st = Inr (args, cleared (nid ` set (present as)) st)"
proof (induction as arbitrary: st args)
  case Nil
  then show ?case by simp
next
  case (Cons a as)
  show ?case
  proof (cases a)
    case None
    with Cons show ?thesis by simp
  next
    case (Some e)
    from Cons.prems Some obtain x xs where args: "args = x # xs"
      and x: "scratch st (nid e) = Some x"
      and xs: "list_all2 (\<lambda>a x. scratch st (nid a) = Some x) (present as) xs"
      by (auto simp: list_all2_Cons1)
    from Cons.prems Some have d: "distinct (map nid (present as))"
      and fresh: "\<forall>z \<in> set (present as). nid z \<noteq> nid e" by (fastforce simp: image_iff)+
    have "list_all2 (\<lambda>a x. scratch (cleared {nid e} st) (nid a) = Some x) (present as) xs"
      using xs fresh by (auto elim!: list.rel_mono_strong)
    from Cons.IH[OF d this] x show ?thesis
      using Some args by (simp add: get_cleared Un_commute)
  qed
qed

lemma get_optional_present:
  "rel_option (\<lambda>e x. scratch st (nid e) = Some x) oe ov \<Longrightarrow>
   get_optional oe st = Inr (ov, cleared (nid ` set_option oe) st)"
  by (cases oe; cases ov) (simp_all add: get_cleared)

lemma append_arguments_result:
  "append_arguments n args st = st\<lparr>result := result st @ map (\<lambda>x. (Argument x, Some n)) args\<rparr>"
  by (induction args arbitrary: st) (simp_all add: append_ir_def)

subsection \<open>Signed operators\<close>

text \<open>
  C2. A signed comparison (\<open>LESS_SIGNED\<close> or \<open>GREATER_SIGNED\<close>) that is not folded, on
  operands whose values \<open>left\<close> and \<open>right\<close> are in the scratch store, appends exactly four
  instructions: the conversion of \<open>left\<close> to \<open>int256\<close> into a fresh temporary, the
  conversion of \<open>right\<close> to \<open>int256\<close> into a fresh temporary, one binary instruction on the
  two temporaries with the unsigned opcode \<open>BT_LESS\<close> or \<open>BT_GREATER\<close>, and the conversion
  of its result to \<open>uint256\<close> into the temporary recorded as the value of the node. The
  opcode type of the binary instruction has no signed member at all.
\<close>

theorem signed_comparison_four_instructions:
  assumes op: "t = LESS_SIGNED \<or> t = GREATER_SIGNED"
    and nofold: "\<not> generates_certik_ir env
      \<or> constant_folding env (BinaryOperation n el er t) = None"
    and l: "scratch st (nid el) = Some left"
    and r: "scratch st (nid er) = Some right"
    and ne: "nid el \<noteq> nid er"
    and k: "k = tmp_counter st"
  shows "\<exists>st'. post_binary_operation env (BinaryOperation n el er t) st = Inr st'
     \<and> result st' = result st @
         [(TypeConversion (TemporaryVariable (k + 1)) left int256, Some n),
          (TypeConversion (TemporaryVariable (k + 2)) right int256, Some n),
          (Binary (TemporaryVariable (k + 3)) (TemporaryVariable (k + 1)) (TemporaryVariable (k + 2))
             (if t = LESS_SIGNED then BT_LESS else BT_GREATER), Some n),
          (TypeConversion (TemporaryVariable k) (TemporaryVariable (k + 3)) uint256, Some n)]
     \<and> scratch st' n = Some (TemporaryVariable k)
     \<and> tmp_type st' (k + 1) = Some int256 \<and> tmp_type st' (k + 2) = Some int256
     \<and> tmp_type st' k = Some uint256"
  using op
proof
  assume "t = LESS_SIGNED"
  then show ?thesis
    using l r ne k not_folded[OF nofold]
    by (simp add: get_present new_temporary_def append_ir_def set_val_def)
next
  assume "t = GREATER_SIGNED"
  then show ?thesis
    using l r ne k not_folded[OF nofold]
    by (simp add: get_present new_temporary_def append_ir_def set_val_def)
qed

theorem signed_comparison_four_instructions_witness:
  "\<exists>st'. post_binary_operation plain_env
            (BinaryOperation 3 (Identifier 1 var_x) (Identifier 2 var_y) LESS_SIGNED)
            (set_val 2 var_y (set_val 1 var_x initial_state)) = Inr st'
     \<and> result st' =
         [(TypeConversion (TemporaryVariable 1) var_x int256, Some 3),
          (TypeConversion (TemporaryVariable 2) var_y int256, Some 3),
          (Binary (TemporaryVariable 3) (TemporaryVariable 1) (TemporaryVariable 2) BT_LESS, Some 3),
          (TypeConversion (TemporaryVariable 0) (TemporaryVariable 3) uint256, Some 3)]
     \<and> scratch st' 3 = Some (TemporaryVariable 0)"
  using signed_comparison_four_instructions[of LESS_SIGNED plain_env 3 "Identifier 1 var_x"
      "Identifier 2 var_y" "set_val 2 var_y (set_val 1 var_x initial_state)" var_x var_y 0]
  by (auto simp: plain_env_def initial_state_def set_val_def)

text \<open>
  C3. An arithmetic right shift that is not folded appends three instructions: the
  conversion of the left operand to \<open>int256\<close> into a fresh temporary, the binary
  instruction \<open>BT_RIGHT_SHIFT\<close> whose left operand is that temporary and whose right
  operand is the value \<open>right\<close> of the shift count itself, and the conversion of the result
  to \<open>uint256\<close>. No conversion of \<open>right\<close> is appended.
\<close>

theorem arithmetic_right_shift_left_only:
  assumes nofold: "\<not> generates_certik_ir env
      \<or> constant_folding env (BinaryOperation n el er RIGHT_SHIFT_ARITHMETIC) = None"
    and l: "scratch st (nid el) = Some left"
    and r: "scratch st (nid er) = Some right"
    and ne: "nid el \<noteq> nid er"
    and k: "k = tmp_counter st"
  shows "\<exists>st'. post_binary_operation env (BinaryOperation n el er RIGHT_SHIFT_ARITHMETIC) st = Inr st'
     \<and> result st' = result st @
         [(TypeConversion (TemporaryVariable (k + 1)) left int256, Some n),
          (Binary (TemporaryVariable (k + 2)) (TemporaryVariable (k + 1)) right BT_RIGHT_SHIFT, Some n),
          (TypeConversion (TemporaryVariable k) (TemporaryVariable (k + 2)) uint256, Some n)]
     \<and> scratch st' n = Some (TemporaryVariable k)"
  using l r ne k not_folded[OF nofold]
  by (simp add: get_present new_temporary_def append_ir_def set_val_def)

theorem arithmetic_right_shift_left_only_witness:
  "\<exists>st'. post_binary_operation plain_env
            (BinaryOperation 3 (Identifier 1 var_x) (Identifier 2 var_a) RIGHT_SHIFT_ARITHMETIC)
            (set_val 2 var_a (set_val 1 var_x initial_state)) = Inr st'
     \<and> result st' =
         [(TypeConversion (TemporaryVariable 1) var_x int256, Some 3),
          (Binary (TemporaryVariable 2) (TemporaryVariable 1) var_a BT_RIGHT_SHIFT, Some 3),
          (TypeConversion (TemporaryVariable 0) (TemporaryVariable 2) uint256, Some 3)]
     \<and> scratch st' 3 = Some (TemporaryVariable 0)"
  using arithmetic_right_shift_left_only[of plain_env 3 "Identifier 1 var_x"
      "Identifier 2 var_a" "set_val 2 var_a (set_val 1 var_x initial_state)" var_x var_a 0]
  by (auto simp: plain_env_def initial_state_def set_val_def)

subsection \<open>Increments\<close>

text \<open>
  C5. For an increment that is not folded, on an operand whose value \<open>x\<close> is in the
  scratch store and has a \<^verbatim>\<open>type\<close> attribute: the postfix form appends exactly two
  instructions, first the assignment of \<open>x\<close> to a fresh temporary and then the addition of
  the constant 1 to \<open>x\<close> stored into \<open>x\<close>, and records the temporary; the prefix form
  appends only the addition and records \<open>x\<close> itself.
\<close>

theorem increment_postfix_and_prefix:
  assumes op: "t = PLUSPLUS_POST \<or> t = PLUSPLUS_PRE"
    and nofold: "\<not> generates_certik_ir env \<or> constant_folding env (UnaryOperation n e t) = None"
    and x: "scratch st (nid e) = Some x"
    and ty: "type_of st x = Inr ty"
    and k: "k = tmp_counter st"
  shows "\<exists>st'. post_unary_operation env (UnaryOperation n e t) st = Inr st'
     \<and> result st' = result st @
         (if t = PLUSPLUS_POST
          then [(Assignment (TemporaryVariable k) x (ret_of ty), Some n),
                (Binary x x (Constant ''1'' ty None) BT_ADDITION, Some n)]
          else [(Binary x x (Constant ''1'' ty None) BT_ADDITION, Some n)])
     \<and> scratch st' n = Some (if t = PLUSPLUS_POST then TemporaryVariable k else x)"
  using op
proof
  assume "t = PLUSPLUS_POST"
  then show ?thesis
    using x ty k not_folded[OF nofold]
    by (simp add: get_present new_temporary_def append_ir_def set_val_def)
next
  assume "t = PLUSPLUS_PRE"
  then show ?thesis
    using x ty k not_folded[OF nofold]
    by (simp add: get_present new_temporary_def append_ir_def set_val_def)
qed

theorem increment_postfix_and_prefix_witness:
  "(\<exists>st'. post_unary_operation plain_env (UnaryOperation 2 (Identifier 1 var_a) PLUSPLUS_POST)
            (set_val 1 var_a initial_state) = Inr st'
     \<and> result st' =
         [(Assignment (TemporaryVariable 0) var_a (RetType uint256), Some 2),
          (Binary var_a var_a (Constant ''1'' (Some uint256) None) BT_ADDITION, Some 2)]
     \<and> scratch st' 2 = Some (TemporaryVariable 0))
   \<and> (\<exists>st'. post_unary_operation plain_env (UnaryOperation 2 (Identifier 1 var_a) PLUSPLUS_PRE)
            (set_val 1 var_a initial_state) = Inr st'
     \<and> result st' = [(Binary var_a var_a (Constant ''1'' (Some uint256) None) BT_ADDITION, Some 2)]
     \<and> scratch st' 2 = Some var_a)"
  using increment_postfix_and_prefix[of PLUSPLUS_POST plain_env 2 "Identifier 1 var_a"
      "set_val 1 var_a initial_state" var_a "Some uint256" 0]
    increment_postfix_and_prefix[of PLUSPLUS_PRE plain_env 2 "Identifier 1 var_a"
      "set_val 1 var_a initial_state" var_a "Some uint256" 0]
  by (auto simp: plain_env_def initial_state_def set_val_def var_a_def)

subsection \<open>Assignments to tuples\<close>

text \<open>
  C4. When the left value is a list of targets and the right value a tuple variable, the
  rule appends, in order, one unpack instruction for every target that is not \<^verbatim>\<open>None\<close>;
  the index it selects is the target's recorded \<^verbatim>\<open>tuple_index\<close> when the target is a
  \<^verbatim>\<open>LocalVariableInitFromTuple\<close> that has one, and otherwise the position of the target
  in the list, counted with the discarded slots. For \<^verbatim>\<open>(a, , c) = f()\<close> the indices are
  0 and 2.
\<close>

theorem unpack_selects_declared_slot:
  assumes l: "scratch st (nid el) = Some (VList targets)"
    and r: "scratch st (nid er) = Some (TupleVariable j)"
    and ne: "nid el \<noteq> nid er"
  shows "\<exists>st'. post_assignement_operation env (AssignmentOperation n el er t rt) st = Inr st'
     \<and> result st' = result st @
         map (\<lambda>(idx, target). (Unpack target (TupleVariable j) (unpack_index idx target), Some n))
           (filter (\<lambda>(idx, target). target \<noteq> NoneV) (enumerate 0 targets))
     \<and> (\<forall>idx target. init_tuple_index target = None \<longrightarrow> unpack_index idx target = idx)
     \<and> (\<forall>idx target x ty i. target = LocalVariableInitFromTuple x ty (Some i)
           \<longrightarrow> unpack_index idx target = i)"
  using l r ne
  by (simp add: get_present assign_values_def unpack_each_result set_val_def unpack_index_def)

theorem unpack_selects_declared_slot_witness:
  "\<exists>st'. post_assignement_operation plain_env
            (AssignmentOperation 6
               (TupleExpression 3 [Some (Identifier 1 var_a), None, Some (Identifier 2 var_c)] False)
               (CallExpression 5 (Identifier 4 (Function ''f'' [None, None, None])) []
                  ''tuple(uint256,uint256,uint256)'' None None None)
               ASSIGN None)
            (set_val 5 (TupleVariable 0) (set_val 3 (VList [var_a, NoneV, var_c]) initial_state))
          = Inr st'
     \<and> result st' = [(Unpack var_a (TupleVariable 0) 0, Some 6),
                      (Unpack var_c (TupleVariable 0) 2, Some 6)]"
  using unpack_selects_declared_slot[of
      "set_val 5 (TupleVariable 0) (set_val 3 (VList [var_a, NoneV, var_c]) initial_state)"
      "TupleExpression 3 [Some (Identifier 1 var_a), None, Some (Identifier 2 var_c)] False"
      "[var_a, NoneV, var_c]"
      "CallExpression 5 (Identifier 4 (Function ''f'' [None, None, None])) []
         ''tuple(uint256,uint256,uint256)'' None None None"
      0 plain_env 6 ASSIGN None]
  by (auto simp: initial_state_def set_val_def var_a_def var_c_def unpack_index_def
      enumerate_eq_zip upt_rec)

text \<open>
  C9. With both values in the scratch store, the assignment rule records \<^verbatim>\<open>None\<close> as
  the value of the assignment in its three tuple branches, each of which succeeds under the
  stated condition: a list of targets and a list of the same length, a list of targets and
  a tuple variable, and a single \<^verbatim>\<open>LocalVariableInitFromTuple\<close> with an index and a
  tuple variable. In every other case, where the left value is not a list, the rule
  succeeds and records the left value.
\<close>

theorem tuple_assignment_records_none:
  assumes l: "scratch st (nid el) = Some left"
    and r: "scratch st (nid er) = Some right"
    and ne: "nid el \<noteq> nid er"
  shows "(\<forall>ls rs. left = VList ls \<and> right = VList rs \<and> length ls = length rs \<longrightarrow>
            (\<exists>st'. post_assignement_operation env (AssignmentOperation n el er t rt) st = Inr st'
               \<and> scratch st' n = Some NoneV))
       \<and> (\<forall>ls. left = VList ls \<and> is_TupleVariable right \<longrightarrow>
            (\<exists>st'. post_assignement_operation env (AssignmentOperation n el er t rt) st = Inr st'
               \<and> scratch st' n = Some NoneV))
       \<and> (init_tuple_index left \<noteq> None \<and> is_TupleVariable right \<longrightarrow>
            (\<exists>st'. post_assignement_operation env (AssignmentOperation n el er t rt) st = Inr st'
               \<and> scratch st' n = Some NoneV))
       \<and> (list_items left = None \<and> \<not> (init_tuple_index left \<noteq> None \<and> is_TupleVariable right) \<longrightarrow>
            (\<exists>st'. post_assignement_operation env (AssignmentOperation n el er t rt) st = Inr st'
               \<and> scratch st' n = Some left))"
proof -
  let ?st = "st\<lparr>scratch := (scratch st)(nid el := None, nid er := None)\<rparr>"
  have run: "post_assignement_operation env (AssignmentOperation n el er t rt) st
      = assign_values n t rt left right ?st"
    using l r ne by (simp add: get_present)
  show ?thesis
    unfolding run
    using assign_values_list_list[of _ _ n t rt ?st] assign_values_list_tuple[of right n t rt _ ?st]
      assign_values_single_unpack[of left right n t rt ?st] assign_values_plain[of left right n t rt ?st]
    by blast
qed

theorem tuple_assignment_records_none_witness:
  "(\<exists>st'. post_assignement_operation plain_env
            (AssignmentOperation 6
               (TupleExpression 3 [Some (Identifier 1 var_a), None, Some (Identifier 2 var_c)] False)
               (CallExpression 5 (Identifier 4 (Function ''f'' [None, None, None])) []
                  ''tuple(uint256,uint256,uint256)'' None None None)
               ASSIGN None)
            (set_val 5 (TupleVariable 0) (set_val 3 (VList [var_a, NoneV, var_c]) initial_state))
          = Inr st'
      \<and> scratch st' 6 = Some NoneV)
   \<and> (\<exists>st'. post_assignement_operation plain_env
            (AssignmentOperation 3 (Identifier 1 var_a) (Identifier 2 var_c) ASSIGN None)
            (set_val 2 var_c (set_val 1 var_a initial_state)) = Inr st'
      \<and> scratch st' 3 = Some var_a)"
  using tuple_assignment_records_none[of
      "set_val 5 (TupleVariable 0) (set_val 3 (VList [var_a, NoneV, var_c]) initial_state)"
      "TupleExpression 3 [Some (Identifier 1 var_a), None, Some (Identifier 2 var_c)] False"
      "VList [var_a, NoneV, var_c]"
      "CallExpression 5 (Identifier 4 (Function ''f'' [None, None, None])) []
         ''tuple(uint256,uint256,uint256)'' None None None"
      "TupleVariable 0" plain_env 6 ASSIGN None]
    tuple_assignment_records_none[of "set_val 2 var_c (set_val 1 var_a initial_state)"
      "Identifier 1 var_a" var_a "Identifier 2 var_c" var_c plain_env 3 ASSIGN None]
  by (auto simp: initial_state_def set_val_def var_a_def var_c_def)

subsection \<open>Member access on the type function\<close>

text \<open>
  C1 (as the code has it). For \<^verbatim>\<open>type(X).min\<close> and \<^verbatim>\<open>type(X).max\<close>, where \<open>X\<close> is
  an elementary type with the bound \<open>b\<close> or an enum, the rule for member access appends
  exactly one instruction, the assignment to a fresh temporary of a constant that carries
  \<^verbatim>\<open>str\<close> of the bound (typed with \<open>X\<close> for an elementary type, untyped for an enum), and
  records the temporary as the value of the expression.
\<close>

theorem type_min_max_assigns_constant:
  assumes member: "member_name = ''min'' \<or> member_name = ''max''"
    and slot: "scratch st c = Some expr"
    and arg: "(targ = ElementaryTypeNameExpression j (ElementaryType name)
               \<and> (if member_name = ''min'' then elementary_min env name
                   else elementary_max env name) = Some b
               \<and> constant_type = Some (ElementaryType name)
               \<and> type_found = RetType (ElementaryType name))
            \<or> (targ = Identifier j (Enum name lo hi)
               \<and> b = (if member_name = ''min'' then lo else hi)
               \<and> constant_type = None \<and> type_found = RetEnum (Enum name lo hi))"
  shows "\<exists>st'. post_member_access env
            (MemberAccess n member_name
               (CallExpression c (Identifier i (SolidityFunction ''type()'')) [Some targ] tc g v s))
            st = Inr st'
     \<and> result st' = result st @
         [(Assignment (TemporaryVariable (tmp_counter st)) (Constant (str_int b) constant_type None)
             type_found, None)]
     \<and> scratch st' n = Some (TemporaryVariable (tmp_counter st))"
  using member slot arg
  by (auto simp: get_present member_min_max_def new_temporary_def append_ir_def set_val_def)

theorem type_min_max_assigns_constant_witness:
  "\<exists>st'. post_member_access plain_env type_uint8_max
            (set_val 3 (TemporaryVariable 0) (initial_state\<lparr>tmp_counter := 1\<rparr>)) = Inr st'
     \<and> result st' =
         [(Assignment (TemporaryVariable 1) (Constant ''255'' (Some (ElementaryType ''uint8'')) None)
             (RetType (ElementaryType ''uint8'')), None)]
     \<and> scratch st' 4 = Some (TemporaryVariable 1)"
  using type_min_max_assigns_constant[where member_name = "''max''"
      and st = "set_val 3 (TemporaryVariable 0) (initial_state\<lparr>tmp_counter := 1\<rparr>)"
      and c = 3 and expr = "TemporaryVariable 0"
      and targ = "ElementaryTypeNameExpression 2 (ElementaryType ''uint8'')" and j = 2
      and name = "''uint8''" and env = plain_env and b = 255
      and constant_type = "Some (ElementaryType ''uint8'')"
      and type_found = "RetType (ElementaryType ''uint8'')" and n = 4 and i = 1
      and tc = "''type(uint8)''" and g = None and v = None and s = None]
  by (auto simp: plain_env_def initial_state_def set_val_def type_uint8_max_def str_int_def
      str_nat.simps digit_def)

text \<open>
  C1 as stated fails: lowering \<^verbatim>\<open>type(uint8).max\<close> appends instructions, the last of
  them the assignment made by the rule for member access, and the value recorded for the
  expression is a temporary, not a constant.
\<close>

theorem type_max_is_not_resolved_to_a_constant:
  "emitted (post_member_access plain_env type_uint8_max
      (set_val 3 (TemporaryVariable 0) (initial_state\<lparr>tmp_counter := 1\<rparr>)))
     = [(Assignment (TemporaryVariable 1) (Constant ''255'' (Some (ElementaryType ''uint8'')) None)
          (RetType (ElementaryType ''uint8'')), None)]
   \<and> recorded 4 (post_member_access plain_env type_uint8_max
      (set_val 3 (TemporaryVariable 0) (initial_state\<lparr>tmp_counter := 1\<rparr>)))
     = Some (TemporaryVariable 1)
   \<and> emitted (ExpressionToSlithIR plain_env type_uint8_max initial_state)
     = [(Argument (TypeV (ElementaryType ''uint8'')), Some 3),
        (TmpCall (SolidityFunction ''type()'') 1 (TemporaryVariable 0) ''type(uint8)''
           None None None, Some 3),
        (Assignment (TemporaryVariable 1) (Constant ''255'' (Some (ElementaryType ''uint8'')) None)
           (RetType (ElementaryType ''uint8'')), None)]
   \<and> recorded 4 (ExpressionToSlithIR plain_env type_uint8_max initial_state)
     = Some (TemporaryVariable 1)"
  by (simp add: emitted_def recorded_def ExpressionToSlithIR_def type_uint8_max_def plain_env_def
      initial_state_def get_def set_val_def append_ir_def new_temporary_def member_min_max_def
      wrap_destination_def call_by_name_def returns_tuple_def str_int_def str_nat.simps digit_def)

subsection \<open>Constant folding\<close>



subsection \<open>Unresolved calls\<close>

text \<open>
  C8 (as the code has it). For a call whose callee value is no function, no wrap or unwrap
  selector of a type alias and none of the six environment pseudo-functions, with the
  values of the callee, of the present arguments and of the present modifiers in the
  scratch store: the rule appends one argument instruction per present argument, in order,
  and then a single placeholder call that carries the callee, the number of arguments, a
  fresh temporary (or tuple) and the modifiers \<^verbatim>\<open>call_gas\<close>, \<^verbatim>\<open>call_value\<close>,
  \<^verbatim>\<open>call_salt\<close> of the call expression: the lowered value of each modifier that the call
  expression has, and none for the others. No internal call is appended.
\<close>

theorem placeholder_call:
  assumes callee: "scratch st (nid c) = Some called"
    and args: "list_all2 (\<lambda>a x. scratch st (nid a) = Some x) (present e_arguments) args"
    and gas: "rel_option (\<lambda>e x. scratch st (nid e) = Some x) e_gas call_gas"
    and val: "rel_option (\<lambda>e x. scratch st (nid e) = Some x) e_value call_value"
    and salt: "rel_option (\<lambda>e x. scratch st (nid e) = Some x) e_salt call_salt"
    and ids: "distinct (nid c # map nid (present e_arguments)
                @ map nid (present [e_gas, e_value, e_salt]))"
    and no_function: "\<not> is_Function called"
    and no_wrap: "wrap_destination called c args = None"
    and name: "name_of called = Some name"
    and no_builtin: "name \<notin> {''caller()'', ''origin()'', ''extcodesize(uint256)'', ''selfbalance()'',
        ''address()'', ''callvalue()''}"
    and dest: "dest = (if returns_tuple type_call then TupleVariable (tuple_counter st)
                       else TemporaryVariable (tmp_counter st))"
  shows "\<exists>st'. post_call_expression env
            (CallExpression n c e_arguments type_call e_gas e_value e_salt) st = Inr st'
     \<and> result st' = result st @ map (\<lambda>x. (Argument x, Some n)) args @
         [(TmpCall called (length args) dest type_call call_gas call_value call_salt, Some n)]
     \<and> scratch st' n = Some dest"
proof -
  let ?A = "nid ` set (present e_arguments)"
  have c_fresh: "\<forall>z \<in> set (present e_arguments). nid z \<noteq> nid c"
    and d_args: "distinct (map nid (present e_arguments))"
    using ids by (fastforce simp: image_iff)+
  have "list_all2 (\<lambda>a x. scratch (cleared {nid c} st) (nid a) = Some x) (present e_arguments) args"
    using args c_fresh by (auto elim!: list.rel_mono_strong)
  from get_args_present[OF d_args this]
  have ga: "get_args e_arguments (cleared {nid c} st) = Inr (args, cleared (?A \<union> {nid c}) st)"
    by simp
  define st1 where "st1 = append_arguments n args (cleared (?A \<union> {nid c}) st)"
  define st2 where
    "st2 = snd (if returns_tuple type_call then new_tuple st1 else new_temporary None st1)"
  have sc2: "scratch st2 = scratch (cleared (?A \<union> {nid c}) st)"
    and res2: "result st2 = result st @ map (\<lambda>x. (Argument x, Some n)) args"
    by (simp_all add: st2_def st1_def append_arguments_result new_tuple_def new_temporary_def)
  have fst2: "fst (if returns_tuple type_call then new_tuple st1 else new_temporary None st1) = dest"
    by (simp add: dest st1_def append_arguments_result new_tuple_def new_temporary_def)
  have g: "rel_option (\<lambda>e x. scratch st2 (nid e) = Some x) e_gas call_gas"
    using gas ids by (cases e_gas; cases call_gas) (auto simp: sc2)
  define st3 where "st3 = cleared (nid ` set_option e_gas) st2"
  have v: "rel_option (\<lambda>e x. scratch st3 (nid e) = Some x) e_value call_value"
    using val ids by (cases e_gas; cases e_value; cases call_value) (auto simp: sc2 st3_def)
  define st4 where "st4 = cleared (nid ` set_option e_value) st3"
  have s: "rel_option (\<lambda>e x. scratch st4 (nid e) = Some x) e_salt call_salt"
    using salt ids
    by (cases e_gas; cases e_value; cases e_salt; cases call_salt) (auto simp: sc2 st3_def st4_def)
  have by_name: "call_by_name n called name args type_call e_gas e_value e_salt st1
     = Inr (set_val n dest (append_ir
         (TmpCall called (length args) dest type_call call_gas call_value call_salt) (Some n)
         (cleared (nid ` set_option e_salt) st4)))"
    using no_builtin fst2 get_optional_present[OF g] get_optional_present[OF v]
      get_optional_present[OF s]
    by (simp add: call_by_name_def st2_def st3_def st4_def split_beta)
  have "post_call_expression env (CallExpression n c e_arguments type_call e_gas e_value e_salt) st
     = call_by_name n called name args type_call e_gas e_value e_salt st1"
    using callee ga no_function no_wrap name by (simp add: get_cleared st1_def)
  with by_name show ?thesis
    by (simp add: set_val_def append_ir_def st4_def st3_def res2)
qed

theorem placeholder_call_witness:
  "\<exists>st'. post_call_expression plain_env option_value_call
            (set_val 4 var_v (set_val 6 (Constant [] (Some (ElementaryType ''string'')) None)
               (set_val 2 (ReferenceVariable 0) (initial_state\<lparr>ref_counter := 1\<rparr>)))) = Inr st'
     \<and> result st' =
         [(Argument (Constant [] (Some (ElementaryType ''string'')) None), Some 7),
          (TmpCall (ReferenceVariable 0) 1 (TupleVariable 0) ''tuple(bool,bytes)''
             None (Some var_v) None, Some 7)]
     \<and> scratch st' 7 = Some (TupleVariable 0)"
  using placeholder_call[of
      "set_val 4 var_v (set_val 6 (Constant [] (Some (ElementaryType ''string'')) None)
         (set_val 2 (ReferenceVariable 0) (initial_state\<lparr>ref_counter := 1\<rparr>)))"
      "MemberAccess 2 ''call'' (Identifier 1 var_dst)" "ReferenceVariable 0"
      "[Some empty_string]"
      "[Constant [] (Some (ElementaryType ''string'')) None]"
      None None "Some (Identifier 4 var_v)" "Some var_v" None None
      "''REF_'' @ str_nat 0" "TupleVariable 0" "''tuple(bool,bytes)''" plain_env 7]
  by (auto simp: initial_state_def set_val_def option_value_call_def empty_string_def
      wrap_destination_def returns_tuple_def)

text \<open>
  C8 as stated fails on its own example: in \<^verbatim>\<open>dst.call.value(v)("")\<close> the part
  \<^verbatim>\<open>dst.call.value(v)\<close> is lowered as a placeholder call of its own with the argument
  \<open>v\<close>, and neither placeholder call has a call-value modifier.
\<close>

theorem legacy_value_call_has_no_call_value:
  "emitted (ExpressionToSlithIR plain_env legacy_value_call initial_state)
     = [(Member var_dst (Constant ''call'' None None) (ReferenceVariable 0), Some 2),
        (Member (ReferenceVariable 0) (Constant ''value'' None None) (ReferenceVariable 1), Some 3),
        (Argument var_v, Some 5),
        (TmpCall (ReferenceVariable 1) 1 (TemporaryVariable 0)
           ''function (bytes memory) payable returns (bool,bytes memory)'' None None None, Some 5),
        (Argument (Constant [] (Some (ElementaryType ''string'')) None), Some 7),
        (TmpCall (TemporaryVariable 0) 1 (TupleVariable 0) ''tuple(bool,bytes)''
           None None None, Some 7)]
   \<and> emitted (post_call_expression plain_env legacy_value_call
        (set_val 6 (Constant [] (Some (ElementaryType ''string'')) None)
          (set_val 5 (TemporaryVariable 0) (initial_state\<lparr>tmp_counter := 1\<rparr>))))
     = [(Argument (Constant [] (Some (ElementaryType ''string'')) None), Some 7),
        (TmpCall (TemporaryVariable 0) 1 (TupleVariable 0) ''tuple(bool,bytes)''
           None None None, Some 7)]"
  by (simp add: emitted_def ExpressionToSlithIR_def legacy_value_call_def empty_string_def
      plain_env_def initial_state_def get_def set_val_def append_ir_def new_temporary_def
      new_reference_def new_tuple_def member_default_def contract_member_def wrap_destination_def
      call_by_name_def returns_tuple_def var_dst_def var_v_def address_def uint256_def)

subsection \<open>The scratch store\<close>

text \<open>A read that succeeds found the entry and leaves the store without it.\<close>

lemma get_Inr: "get k st = Inr (v, st') \<Longrightarrow> scratch st k = Some v \<and> st' = cleared {k} st"
  by (auto simp: get_def cleared_def fun_eq_iff split: option.splits
      intro!: arg_cong[where f="\<lambda>s. st\<lparr>scratch := s\<rparr>"])

lemma on_ok_Inr_iff: "on_ok m f = Inr y \<longleftrightarrow> (\<exists>x. m = Inr x \<and> f x = Inr y)"
  by (cases m) (simp_all)

lemma get_args_Inr:
  "get_args as st = Inr (args, st') \<Longrightarrow> st' = cleared (nid ` set (present as)) st"
proof (induction as arbitrary: st args)
  case Nil
  then show ?case by simp
next
  case (Cons a as)
  show ?case
  proof (cases a)
    case None
    with Cons show ?thesis by simp
  next
    case (Some e)
    with Cons.prems obtain x st1 xs where g: "get (nid e) st = Inr (x, st1)"
      and r: "get_args as st1 = Inr (xs, st')"
      by (auto simp: on_ok_Inr_iff)
    from Cons.IH[OF r] get_Inr[OF g] Some show ?thesis
      by (simp add: Un_commute)
  qed
qed

lemma get_elements_Inr:
  "get_elements es st = Inr (vs, st') \<Longrightarrow> st' = cleared (nid ` set (present es)) st"
proof (induction es arbitrary: st vs)
  case Nil
  then show ?case by simp
next
  case (Cons a as)
  show ?case
  proof (cases a)
    case None
    with Cons.prems obtain xs where r: "get_elements as st = Inr (xs, st')"
      by (auto simp: on_ok_Inr_iff)
    from Cons.IH[OF r] None show ?thesis by simp
  next
    case (Some e)
    with Cons.prems obtain x st1 xs where g: "get (nid e) st = Inr (x, st1)"
      and r: "get_elements as st1 = Inr (xs, st')"
      by (auto simp: on_ok_Inr_iff)
    from Cons.IH[OF r] get_Inr[OF g] Some show ?thesis
      by (simp add: Un_commute)
  qed
qed

lemma get_optional_Inr:
  "get_optional oe st = Inr (ov, st') \<Longrightarrow> st' = cleared (nid ` set_option oe) st"
  by (cases oe) (auto simp: on_ok_Inr_iff dest: get_Inr)

text \<open>
  The parts of the rules that run after the reads change the scratch store only by
  recording the value of the node.
\<close>

lemma sets_only_set_val [simp]: "scratch st1 = scratch st \<Longrightarrow> sets_only n st (set_val n v st1)"
  by (auto simp: sets_only_def set_val_def)

lemma scratch_append_ir [simp]: "scratch (append_ir operation e st) = scratch st"
  by (simp add: append_ir_def)

lemma scratch_set_type [simp]: "scratch (set_type v t st) = scratch st"
  by (cases v) simp_all

lemma scratch_new_temporary [simp]: "scratch (snd (new_temporary l st)) = scratch st"
  by (simp add: new_temporary_def)

lemma scratch_new_reference [simp]: "scratch (snd (new_reference st)) = scratch st"
  by (simp add: new_reference_def)

lemma scratch_new_tuple [simp]: "scratch (snd (new_tuple st)) = scratch st"
  by (simp add: new_tuple_def)

lemma lower_binary_sets: "lower_binary n t l r st = Inr st' \<Longrightarrow> sets_only n st st'"
  by (auto simp: split_beta Let_def split: option.splits if_splits)

lemma lower_unary_sets: "lower_unary n t v st = Inr st' \<Longrightarrow> sets_only n st st'"
  by (cases t) (auto simp: split_beta Let_def on_ok_Inr_iff)

lemma assign_each_scratch:
  "assign_each n ls rs t rt st = Inr st' \<Longrightarrow> scratch st' = scratch st"
  by (induction n ls rs t rt st rule: assign_each.induct)
     (auto simp: on_ok_Inr_iff split: if_splits)

lemma member_min_max_sets: "member_min_max env n m as st = Inr st' \<Longrightarrow> sets_only n st st'"
  by (auto simp: member_min_max_def on_ok_Inr_iff split_beta split: list.splits)

lemma assign_values_sets: "assign_values n t rt l r st = Inr st' \<Longrightarrow> sets_only n st st'"
  by (auto simp: assign_values_def on_ok_Inr_iff dest!: assign_each_scratch
      split: option.splits if_splits bool.splits)

lemma member_default_sets:
  assumes a: "member_default env n m expr st = Inr st'"
  shows "sets_only n st st'"
proof (cases "is_Variable expr \<and> type_of st expr = Inr (Some address)
    \<and> m \<in> {''balance'', ''code'', ''codehash''}")
  case True
  then have "member_default env n m expr st
      = (let (val, st1) = new_temporary None st; name = m @ ''(address)''
         in Inr (set_val n val (append_ir
              (SolidityCall (SolidityFunction name) 1 val (solidity_return_type env name) [expr])
              (Some n) st1)))"
    unfolding member_default_def by (rule if_P)
  with a show ?thesis by (auto simp: split_beta Let_def)
next
  case c1: False
  have e1: "member_default env n m expr st
      = (if alias_of expr \<noteq> None \<and> m \<in> {''wrap'', ''unwrap''} then Inr (set_val n expr st)
         else case contract_member expr m of
                Some v \<Rightarrow> Inr (set_val n v st)
              | None \<Rightarrow>
                  (let (val, st1) = new_reference st in
                   Inr (set_val n val (append_ir
                     (Member expr (Constant m None None) val) (Some n) st1))))"
    unfolding member_default_def by (rule if_not_P) (rule c1)
  show ?thesis
  proof (cases "alias_of expr \<noteq> None \<and> m \<in> {''wrap'', ''unwrap''}")
    case True
    then have "member_default env n m expr st = Inr (set_val n expr st)"
      unfolding e1 by (rule if_P)
    with a show ?thesis by auto
  next
    case c2: False
    have "member_default env n m expr st
      = (case contract_member expr m of
           Some v \<Rightarrow> Inr (set_val n v st)
         | None \<Rightarrow>
             (let (val, st1) = new_reference st in
              Inr (set_val n val (append_ir
                (Member expr (Constant m None None) val) (Some n) st1))))"
      unfolding e1 by (rule if_not_P) (rule c2)
    with a show ?thesis
      by (cases "contract_member expr m") (auto simp: split_beta)
  qed
qed

lemma call_by_name_writes:
  assumes a: "call_by_name n called name args tc g v s st = Inr st'"
  shows "writes n {} (nid ` set (present [g, v, s])) st st'"
proof (cases "name \<in> {''caller()'', ''origin()'', ''extcodesize(uint256)'', ''selfbalance()'',
      ''address()'', ''callvalue()''}")
  case True
  with a have "sets_only n st st'"
    by (auto simp: call_by_name_def split_beta Let_def split: if_splits list.splits)
  then show ?thesis
    by (auto simp: writes_def sets_only_def intro!: exI[of _ "{}"])
next
  case False
  define st0 where "st0 = snd (if returns_tuple tc then new_tuple st else new_temporary None st)"
  have sc0: "scratch st0 = scratch st" by (simp add: st0_def)
  from a False obtain cg st1 cv st2 cs st3 x operation where
    g: "get_optional g st0 = Inr (cg, st1)" and v: "get_optional v st1 = Inr (cv, st2)"
    and s: "get_optional s st2 = Inr (cs, st3)"
    and st': "st' = set_val n x (append_ir operation (Some n) st3)"
    by (auto simp: call_by_name_def split_beta on_ok_Inr_iff st0_def split: if_splits)
  have "st3 = cleared (nid ` set (present [g, v, s])) st0"
    using get_optional_Inr[OF g] get_optional_Inr[OF v] get_optional_Inr[OF s]
    by (cases g; cases v; cases s) (simp_all add: Un_commute insert_commute)
  then show ?thesis
    using st' sc0
    by (auto simp: writes_def set_val_def cleared_def fun_eq_iff
        intro!: exI[of _ "nid ` set (present [g, v, s])"])
qed

text \<open>
  Every rule that succeeds has removed the entries of the children it reads and has
  written the entry of its own node; the rule for calls may leave the entries of the
  modifiers.
\<close>

lemma writesI:
  "sets_only n (cleared D st) st' \<Longrightarrow> R \<subseteq> D \<Longrightarrow> D \<subseteq> R \<union> M \<Longrightarrow> writes n R M st st'"
  unfolding writes_def sets_only_def by blast

lemma writes_leaf: "sets_only n st st' \<Longrightarrow> writes n {} {} st st'"
  using writesI[of n "{}" st st' "{}" "{}"] by simp

lemma sets_only_scratch: "sets_only n st1 st' \<Longrightarrow> scratch st1 = scratch st \<Longrightarrow> sets_only n st st'"
  by (simp add: sets_only_def)

lemma post_assignement_writes:
  assumes "post_assignement_operation env (AssignmentOperation n l r t rt) st = Inr st'"
  shows "writes n {nid l, nid r} {} st st'"
proof -
  from assms obtain lv st1 rv st2 where g1: "get (nid l) st = Inr (lv, st1)"
    and g2: "get (nid r) st1 = Inr (rv, st2)" and a: "assign_values n t rt lv rv st2 = Inr st'"
    by (auto simp: on_ok_Inr_iff)
  from get_Inr[OF g1] get_Inr[OF g2] have "st2 = cleared {nid l, nid r} st"
    by (simp add: insert_commute)
  with assign_values_sets[OF a] show ?thesis by (auto intro: writesI)
qed

lemma post_binary_writes:
  assumes "post_binary_operation env (BinaryOperation n l r t) st = Inr st'"
    and "\<not> generates_certik_ir env"
  shows "writes n {nid l, nid r} {} st st'"
proof -
  from assms obtain lv st1 rv st2 where g1: "get (nid l) st = Inr (lv, st1)"
    and g2: "get (nid r) st1 = Inr (rv, st2)" and a: "lower_binary n t lv rv st2 = Inr st'"
    by (auto simp: on_ok_Inr_iff folded_def simp del: lower_binary.simps)
  from get_Inr[OF g1] get_Inr[OF g2] have "st2 = cleared {nid l, nid r} st"
    by (simp add: insert_commute)
  with lower_binary_sets[OF a] show ?thesis by (auto intro: writesI)
qed

lemma post_unary_writes:
  assumes "post_unary_operation env (UnaryOperation n e t) st = Inr st'"
    and "\<not> generates_certik_ir env"
  shows "writes n {nid e} {} st st'"
proof -
  from assms obtain v st1 where g1: "get (nid e) st = Inr (v, st1)"
    and a: "lower_unary n t v st1 = Inr st'"
    by (auto simp: on_ok_Inr_iff folded_def)
  from get_Inr[OF g1] lower_unary_sets[OF a] show ?thesis by (auto intro: writesI)
qed

lemma post_index_writes:
  assumes "post_index_access env (IndexAccess n l r t) st = Inr st'"
  shows "writes n {nid l, nid r} {} st st'"
proof -
  from assms obtain lv st1 rv st2 where g1: "get (nid l) st = Inr (lv, st1)"
    and g2: "get (nid r) st1 = Inr (rv, st2)"
    and a: "(case type_value lv of
       Some left_type \<Rightarrow>
         (case constant_value rv of
            None \<Rightarrow> Inl AssertionError
          | Some v \<Rightarrow> Inr (set_val n (TypeV (ArrayType left_type v)) st2))
     | None \<Rightarrow>
         (let (val, st) = new_reference st2;
              (left, st) =
                (case list_items lv of
                   Some init_array_right \<Rightarrow>
                     (let (init_array_val, st) = new_temporary None st in
                      (init_array_val, append_ir (InitArray lv init_array_val) (Some n) st))
                 | None \<Rightarrow> (lv, st))
          in Inr (set_val n val (append_ir (Index val left rv t) (Some n) st)))) = Inr st'"
    by (auto simp: on_ok_Inr_iff)
  from get_Inr[OF g1] get_Inr[OF g2] have st2: "st2 = cleared {nid l, nid r} st"
    by (simp add: insert_commute)
  from a have "sets_only n st2 st'"
    by (auto simp: split_beta Let_def split: option.splits)
  with st2 show ?thesis by (auto intro: writesI)
qed

lemma post_member_writes:
  assumes "post_member_access env (MemberAccess n m e) st = Inr st'"
  shows "writes n {nid e} {} st st'"
proof -
  from assms obtain v st1 where g1: "get (nid e) st = Inr (v, st1)"
    and a: "(case (if m \<in> {''min'', ''max''} then type_call_arguments e else None) of
       Some as \<Rightarrow> member_min_max env n m as st1
     | None \<Rightarrow> member_default env n m v st1) = Inr st'"
    by (auto simp: on_ok_Inr_iff)
  from a have "sets_only n st1 st'"
    by (cases "if m \<in> {''min'', ''max''} then type_call_arguments e else None")
       (auto dest: member_min_max_sets member_default_sets simp del: type_call_arguments.simps)
  with get_Inr[OF g1] show ?thesis by (auto intro: writesI)
qed

lemma post_type_conversion_writes:
  assumes "post_type_conversion env (TypeConversionExpression n e t) st = Inr st'"
  shows "writes n {nid e} {} st st'"
proof -
  from assms obtain v st1 where g1: "get (nid e) st = Inr (v, st1)"
    and a: "sets_only n st1 st'"
    by (auto simp: on_ok_Inr_iff split_beta Let_def)
  with get_Inr[OF g1] show ?thesis by (auto intro: writesI)
qed

lemma post_tuple_writes:
  assumes "post_tuple_expression env (TupleExpression n es a) st = Inr st'"
  shows "writes n (nid ` set (present es)) {} st st'"
proof -
  from assms obtain vs st1 where g1: "get_elements es st = Inr (vs, st1)"
    and a: "sets_only n st1 st'"
    by (auto simp: on_ok_Inr_iff split_beta Let_def split: if_splits list.splits)
  with get_elements_Inr[OF g1] show ?thesis by (auto intro: writesI)
qed

lemma post_new_contract_writes:
  assumes "post_new_contract env (NewContract n c v s) st = Inr st'"
  shows "writes n (nid ` set (present [v, s])) {} st st'"
proof -
  define st0 where "st0 = snd (new_temporary None st)"
  from assms obtain cv st1 cs st2 where g1: "get_optional v st0 = Inr (cv, st1)"
    and g2: "get_optional s st1 = Inr (cs, st2)" and a: "sets_only n st2 st'"
    by (auto simp: on_ok_Inr_iff split_beta Let_def st0_def)
  from get_optional_Inr[OF g1] get_optional_Inr[OF g2]
  have "st2 = cleared (nid ` set (present [v, s])) st0"
    by (cases v; cases s) (simp_all add: insert_commute)
  moreover have "scratch (cleared (nid ` set (present [v, s])) st0)
      = scratch (cleared (nid ` set (present [v, s])) st)"
    by (auto simp: fun_eq_iff st0_def)
  ultimately have "sets_only n (cleared (nid ` set (present [v, s])) st) st'"
    using a by (simp add: sets_only_def)
  then show ?thesis by (auto intro: writesI)
qed

lemma post_call_writes:
  assumes "post_call_expression env (CallExpression n c as tc g v s) st = Inr st'"
  shows "writes n (insert (nid c) (nid ` set (present as))) (nid ` set (present [g, v, s])) st st'"
proof -
  let ?R = "insert (nid c) (nid ` set (present as))"
  from assms obtain called st1 args st2 where g1: "get (nid c) st = Inr (called, st1)"
    and g2: "get_args as st1 = Inr (args, st2)"
    and a: "(let st = append_arguments n args st2 in
     if is_Function called then
       (if returns_tuple tc then
          (let (val, st) = new_tuple st in
           Inr (set_val n val (append_ir (InternalCall called (length args) val tc) (Some n) st)))
        else if length (function_returns called) \<le> 1 then
          (let (val, st) = new_temporary
                 (case function_returns called of [location] \<Rightarrow> location | _ \<Rightarrow> None) st in
           Inr (set_val n val (append_ir (InternalCall called (length args) val tc) (Some n) st)))
        else Inl AssertionError)
     else
       (case wrap_destination called c args of
          Some dest_type \<Rightarrow>
            (let (val, st) = new_temporary None st in
             case args of
               [] \<Rightarrow> Inl IndexError
             | arg # _ \<Rightarrow>
                 (let st = set_type val dest_type st;
                      st = append_ir (TypeConversion val arg dest_type) (Some n) st
                  in Inr (set_val n val st)))
        | None \<Rightarrow>
            (case name_of called of
               None \<Rightarrow> Inl AttributeError
             | Some name \<Rightarrow> call_by_name n called name args tc g v s st))) = Inr st'"
    by (auto simp: on_ok_Inr_iff)
  from get_Inr[OF g1] get_args_Inr[OF g2] have st2: "st2 = cleared ?R st"
    by (simp add: Un_commute)
  define st3 where "st3 = append_arguments n args st2"
  have sc3: "scratch st3 = scratch st2" by (simp add: st3_def append_arguments_result)
  show ?thesis
  proof (cases "is_Function called")
    case True
    with a have "sets_only n st3 st'"
      by (auto simp: split_beta Let_def st3_def split: if_splits)
    then have "sets_only n st2 st'" using sc3 by (rule sets_only_scratch)
    with st2 show ?thesis by (auto intro: writesI)
  next
    case nf: False
    show ?thesis
    proof (cases "wrap_destination called c args")
      case (Some dest_type)
      with a nf have "sets_only n st3 st'"
        by (auto simp: split_beta Let_def st3_def split: list.splits)
      then have "sets_only n st2 st'" using sc3 by (rule sets_only_scratch)
      with st2 show ?thesis by (auto intro: writesI)
    next
      case None
      with a nf obtain name where "call_by_name n called name args tc g v s st3 = Inr st'"
        by (auto simp: st3_def split: option.splits)
      from call_by_name_writes[OF this] obtain D x where D: "D \<subseteq> nid ` set (present [g, v, s])"
        and sc: "scratch st' = (scratch (cleared D st3))(n \<mapsto> x)"
        by (auto simp: writes_def)
      have "scratch (cleared D st3) = scratch (cleared (?R \<union> D) st)"
        using sc3 st2 by (auto simp: cleared_def fun_eq_iff)
      with sc D show ?thesis
        unfolding writes_def by (intro exI[of _ "?R \<union> D"] exI[of _ x]) auto
    qed
  qed
qed

text \<open>
  Steps on disjoint sets of nodes compose, and a rule on top of the walks of its children
  leaves at most its own entry and what the children left and it did not read.
\<close>

lemma kept_refl: "kept {} C st st"
  by (simp add: kept_def)

lemma kept_seq:
  "kept S1 C1 st st1 \<Longrightarrow> kept S2 C2 st1 st2 \<Longrightarrow> S1 \<inter> S2 = {} \<Longrightarrow>
   kept (S1 \<union> S2) (C1 \<union> C2) st st2"
  unfolding kept_def by (metis IntI UnE UnI1 UnI2 empty_iff)

lemma kept_step:
  assumes k: "kept S C st st1" and w: "writes n R M st1 st'"
    and sub: "R \<union> M \<subseteq> S" and fresh: "n \<notin> S"
    and C': "insert n ((C - R) \<union> M) \<subseteq> C'"
  shows "kept (insert n S) C' st st'"
proof -
  from w obtain D v where D: "R \<subseteq> D" "D \<subseteq> R \<union> M"
    and sc: "scratch st' = (scratch (cleared D st1))(n \<mapsto> v)"
    by (auto simp: writes_def)
  show ?thesis
    unfolding kept_def
  proof (intro conjI allI ballI impI)
    fix k assume "k \<notin> insert n S"
    then have "k \<noteq> n" "k \<notin> S" "k \<notin> D" using D sub by auto
    then show "scratch st' k = scratch st k" using sc k by (simp add: kept_def)
  next
    fix k assume kS: "k \<in> insert n S" and kC: "k \<notin> C'"
    then have kn: "k \<noteq> n" and "k \<in> S" and "k \<notin> M" and "k \<notin> C \<or> k \<in> R" using C' by auto
    then have "k \<in> D \<or> scratch st1 k = None" using k D by (auto simp: kept_def)
    then show "scratch st' k = None" using sc kn by auto
  qed
qed

lemma nid_in_ids [simp]: "nid e \<in> set (ids e)"
  by (cases e) simp_all

lemma root_in_ids_optional: "nid ` set_option oe \<subseteq> set (ids_optional oe)"
  by (cases oe) simp_all

lemma roots_in_ids_each: "nid ` set (present es) \<subseteq> set (ids_each es)"
proof (induction es)
  case Nil
  then show ?case by simp
next
  case (Cons a es)
  then show ?case by (cases a) auto
qed

lemma present_three:
  "nid ` set (present [g, v, s]) = nid ` set_option g \<union> nid ` set_option v \<union> nid ` set_option s"
  by (cases g; cases v; cases s) auto

lemma present_two:
  "nid ` set (present [v, s]) = nid ` set_option v \<union> nid ` set_option s"
  by (cases v; cases s) auto

lemma leaf_kept:
  "sets_only n st st' \<Longrightarrow> kept {n} (insert n C) st st'"
  using kept_step[OF kept_refl[of "{}" st] writes_leaf, of n st' "insert n C"] by simp

text \<open>
  The walk of an expression with distinct nodes changes no entry outside the expression
  and leaves inside at most the entry of its root and entries of modifiers of calls.
\<close>

lemma visit_kept:
  "\<not> generates_certik_ir env \<Longrightarrow> distinct (ids e) \<Longrightarrow> visit_expression env e st = Inr st' \<Longrightarrow>
   kept (set (ids e)) (insert (nid e) (set (call_modifiers e))) st st'"
  "\<not> generates_certik_ir env \<Longrightarrow> distinct (ids_optional oe) \<Longrightarrow>
   visit_optional env oe st0 = Inr st0' \<Longrightarrow>
   kept (set (ids_optional oe)) (nid ` set_option oe \<union> set (call_modifiers_optional oe)) st0 st0'"
  "\<not> generates_certik_ir env \<Longrightarrow> distinct (ids_each es) \<Longrightarrow>
   visit_each env es st1 = Inr st1' \<Longrightarrow>
   kept (set (ids_each es)) (nid ` set (present es) \<union> set (call_modifiers_each es)) st1 st1'"
proof (induction env e st and env oe st0 and env es st1 arbitrary: st' and st0' and st1'
    rule: visit_expression_visit_optional_visit_each.induct)
  case (1 env n l r t rt st)
  from "1.prems" obtain sa sb where a: "visit_expression env l st = Inr sa"
    and b: "visit_expression env r sa = Inr sb"
    and p: "post_assignement_operation env (AssignmentOperation n l r t rt) sb = Inr st'"
    by (auto simp: on_ok_Inr_iff)
  from "1.prems" have d: "distinct (ids l)" "distinct (ids r)" "set (ids l) \<inter> set (ids r) = {}"
    "n \<notin> set (ids l) \<union> set (ids r)" by auto
  from kept_seq[OF "1.IH"(1)[OF "1.prems"(1) d(1) a] "1.IH"(2)[OF "1.prems"(1) d(2) b] d(3)]
    post_assignement_writes[OF p] d(4)
  show ?case by (auto intro!: kept_step[where S="set (ids l) \<union> set (ids r)", simplified])
next
  case (2 env n l r t st)
  from "2.prems" obtain sa sb where a: "visit_expression env l st = Inr sa"
    and b: "visit_expression env r sa = Inr sb"
    and p: "post_binary_operation env (BinaryOperation n l r t) sb = Inr st'"
    by (auto simp: on_ok_Inr_iff simp del: post_binary_operation.simps)
  from "2.prems" have d: "distinct (ids l)" "distinct (ids r)" "set (ids l) \<inter> set (ids r) = {}"
    "n \<notin> set (ids l) \<union> set (ids r)" by auto
  have "kept (insert n (set (ids l) \<union> set (ids r)))
     (insert n (set (call_modifiers l) \<union> set (call_modifiers r))) st st'"
    by (rule kept_step[OF kept_seq[OF "2.IH"(1)[OF "2.prems"(1) d(1) a]
            "2.IH"(2)[OF "2.prems"(1) d(2) b] d(3)]
          post_binary_writes[OF p "2.prems"(1)]]) (use d(4) in auto)
  then show ?case by simp
next
  case (3 env n c as tc g v s st)
  from "3.prems" obtain sa sb sc sd se where a: "visit_expression env c st = Inr sa"
    and b: "visit_each env as sa = Inr sb"
    and cv: "visit_optional env v sb = Inr sc"
    and cg: "visit_optional env g sc = Inr sd"
    and cs: "visit_optional env s sd = Inr se"
    and p: "post_call_expression env (CallExpression n c as tc g v s) se = Inr st'"
    by (auto simp: on_ok_Inr_iff simp del: post_call_expression.simps)
  from "3.prems" have d: "distinct (ids c)" "distinct (ids_each as)" "distinct (ids_optional g)"
    "distinct (ids_optional v)" "distinct (ids_optional s)"
    and i1: "set (ids c) \<inter> set (ids_each as) = {}"
    and i2: "(set (ids c) \<union> set (ids_each as)) \<inter> set (ids_optional v) = {}"
    and i3: "(set (ids c) \<union> set (ids_each as) \<union> set (ids_optional v)) \<inter> set (ids_optional g) = {}"
    and i4: "(set (ids c) \<union> set (ids_each as) \<union> set (ids_optional v) \<union> set (ids_optional g))
        \<inter> set (ids_optional s) = {}"
    and fresh: "n \<notin> set (ids c) \<union> set (ids_each as) \<union> set (ids_optional v)
        \<union> set (ids_optional g) \<union> set (ids_optional s)"
    by auto
  note k1 = "3.IH"(1)[OF "3.prems"(1) d(1) a]
  note k2 = kept_seq[OF k1 "3.IH"(2)[OF "3.prems"(1) d(2) b] i1]
  note k3 = kept_seq[OF k2 "3.IH"(3)[OF "3.prems"(1) d(4) cv] i2]
  note k4 = kept_seq[OF k3 "3.IH"(4)[OF "3.prems"(1) d(3) cg] i3]
  note k5 = kept_seq[OF k4 "3.IH"(5)[OF "3.prems"(1) d(5) cs] i4]
  have "kept (insert n (set (ids c) \<union> set (ids_each as) \<union> set (ids_optional v)
        \<union> set (ids_optional g) \<union> set (ids_optional s)))
     (insert n (set (call_modifiers (CallExpression n c as tc g v s)))) st st'"
    by (rule kept_step[OF k5 post_call_writes[OF p]])
       (use fresh roots_in_ids_each[of as] root_in_ids_optional[of g] root_in_ids_optional[of v]
          root_in_ids_optional[of s] in \<open>auto simp: present_three\<close>)
  then show ?case by (simp add: Un_ac insert_commute)
next
  case (4 env n c a b st)
  then show ?case by (auto simp: on_ok_Inr_iff)
next
  case (5 env n t st)
  then show ?case by (auto intro!: leaf_kept[where C="{}", simplified])
next
  case (6 env n v st)
  then show ?case by (auto intro!: leaf_kept[where C="{}", simplified])
next
  case (7 env n l r t st)
  from "7.prems" obtain sa sb where a: "visit_expression env l st = Inr sa"
    and b: "visit_expression env r sa = Inr sb"
    and p: "post_index_access env (IndexAccess n l r t) sb = Inr st'"
    by (auto simp: on_ok_Inr_iff simp del: post_index_access.simps)
  from "7.prems" have d: "distinct (ids l)" "distinct (ids r)" "set (ids l) \<inter> set (ids r) = {}"
    "n \<notin> set (ids l) \<union> set (ids r)" by auto
  have "kept (insert n (set (ids l) \<union> set (ids r)))
     (insert n (set (call_modifiers l) \<union> set (call_modifiers r))) st st'"
    by (rule kept_step[OF kept_seq[OF "7.IH"(1)[OF "7.prems"(1) d(1) a]
            "7.IH"(2)[OF "7.prems"(1) d(2) b] d(3)]
          post_index_writes[OF p]]) (use d(4) in auto)
  then show ?case by simp
next
  case (8 env n v t sub st)
  then show ?case by (auto intro!: leaf_kept[where C="{}", simplified])
next
  case (9 env n m e st)
  from "9.prems" obtain sa where a: "visit_expression env e st = Inr sa"
    and p: "post_member_access env (MemberAccess n m e) sa = Inr st'"
    by (auto simp: on_ok_Inr_iff simp del: post_member_access.simps)
  from "9.prems" have d: "distinct (ids e)" "n \<notin> set (ids e)" by auto
  have "kept (insert n (set (ids e))) (insert n (set (call_modifiers e))) st st'"
    by (rule kept_step[OF "9.IH"[OF "9.prems"(1) d(1) a] post_member_writes[OF p]])
       (use d(2) in auto)
  then show ?case by simp
next
  case (10 env n d t st)
  then show ?case
    by (auto simp: split_beta intro!: leaf_kept[where C="{}", simplified])
next
  case (11 env n c v s st)
  from "11.prems" obtain sa sb where a: "visit_optional env v st = Inr sa"
    and b: "visit_optional env s sa = Inr sb"
    and p: "post_new_contract env (NewContract n c v s) sb = Inr st'"
    by (auto simp: on_ok_Inr_iff simp del: post_new_contract.simps)
  from "11.prems" have d: "distinct (ids_optional v)" "distinct (ids_optional s)"
    "set (ids_optional v) \<inter> set (ids_optional s) = {}"
    "n \<notin> set (ids_optional v) \<union> set (ids_optional s)" by auto
  have "kept (insert n (set (ids_optional v) \<union> set (ids_optional s)))
     (insert n (set (call_modifiers_optional v) \<union> set (call_modifiers_optional s))) st st'"
    by (rule kept_step[OF kept_seq[OF "11.IH"(1)[OF "11.prems"(1) d(1) a]
            "11.IH"(2)[OF "11.prems"(1) d(2) b] d(3)]
          post_new_contract_writes[OF p]])
       (use d(4) root_in_ids_optional[of v] root_in_ids_optional[of s] in
          \<open>auto simp: present_two\<close>)
  then show ?case by simp
next
  case (12 env n t st)
  then show ?case
    by (auto simp: split_beta intro!: leaf_kept[where C="{}", simplified])
next
  case (13 env n es a st)
  from "13.prems" obtain sa where a: "visit_each env es st = Inr sa"
    and p: "post_tuple_expression env (TupleExpression n es a) sa = Inr st'"
    by (auto simp: on_ok_Inr_iff simp del: post_tuple_expression.simps)
  from "13.prems" have d: "distinct (ids_each es)" "n \<notin> set (ids_each es)" by auto
  have "kept (insert n (set (ids_each es))) (insert n (set (call_modifiers_each es))) st st'"
    by (rule kept_step[OF "13.IH"[OF "13.prems"(1) d(1) a] post_tuple_writes[OF p]])
       (use d(2) roots_in_ids_each[of es] in auto)
  then show ?case by simp
next
  case (14 env n e t st)
  from "14.prems" obtain sa where a: "visit_expression env e st = Inr sa"
    and p: "post_type_conversion env (TypeConversionExpression n e t) sa = Inr st'"
    by (auto simp: on_ok_Inr_iff simp del: post_type_conversion.simps)
  from "14.prems" have d: "distinct (ids e)" "n \<notin> set (ids e)" by auto
  have "kept (insert n (set (ids e))) (insert n (set (call_modifiers e))) st st'"
    by (rule kept_step[OF "14.IH"[OF "14.prems"(1) d(1) a] post_type_conversion_writes[OF p]])
       (use d(2) in auto)
  then show ?case by simp
next
  case (15 env n e t st)
  from "15.prems" obtain sa where a: "visit_expression env e st = Inr sa"
    and p: "post_unary_operation env (UnaryOperation n e t) sa = Inr st'"
    by (auto simp: on_ok_Inr_iff simp del: post_unary_operation.simps)
  from "15.prems" have d: "distinct (ids e)" "n \<notin> set (ids e)" by auto
  have "kept (insert n (set (ids e))) (insert n (set (call_modifiers e))) st st'"
    by (rule kept_step[OF "15.IH"[OF "15.prems"(1) d(1) a] post_unary_writes[OF p "15.prems"(1)]])
       (use d(2) in auto)
  then show ?case by simp
next
  case (16 env st)
  then show ?case by (simp add: kept_refl)
next
  case (17 env e st)
  then show ?case by simp
next
  case (18 env st)
  then show ?case by (simp add: kept_refl)
next
  case (19 env e es st)
  from "19.prems" obtain sa where a: "visit_optional env e st = Inr sa"
    and b: "visit_each env es sa = Inr st1'"
    by (auto simp: on_ok_Inr_iff)
  from "19.prems" have d: "distinct (ids_optional e)" "distinct (ids_each es)"
    "set (ids_optional e) \<inter> set (ids_each es) = {}" by auto
  from kept_seq[OF "19.IH"(1)[OF "19.prems"(1) d(1) a] "19.IH"(2)[OF "19.prems"(1) d(2) b] d(3)]
  show ?case by (cases e) (simp_all add: Un_ac)
qed

text \<open>The walk of an expression ends with the entry of its root written.\<close>

lemma writes_root: "writes n R M st st' \<Longrightarrow> scratch st' n \<noteq> None"
  by (auto simp: writes_def)

lemma sets_only_root: "sets_only n st st' \<Longrightarrow> scratch st' n \<noteq> None"
  by (auto simp: sets_only_def)

lemma visit_root:
  assumes nofold: "\<not> generates_certik_ir env" and run: "visit_expression env e st = Inr st'"
  shows "scratch st' (nid e) \<noteq> None"
proof (cases e)
  case (AssignmentOperation n l r t rt)
  with run show ?thesis
    by (auto simp: on_ok_Inr_iff simp del: post_assignement_operation.simps
        dest!: post_assignement_writes writes_root)
next
  case (BinaryOperation n l r t)
  with run nofold show ?thesis
    by (auto simp: on_ok_Inr_iff simp del: post_binary_operation.simps
        dest!: post_binary_writes writes_root)
next
  case (CallExpression n c as tc g v s)
  with run show ?thesis
    by (auto simp: on_ok_Inr_iff simp del: post_call_expression.simps
        dest!: post_call_writes writes_root)
next
  case (ConditionalExpression n c a b)
  with run show ?thesis by (auto simp: on_ok_Inr_iff)
next
  case (ElementaryTypeNameExpression n t)
  with run show ?thesis by (auto simp: set_val_def)
next
  case (Identifier n v)
  with run show ?thesis by (auto simp: set_val_def)
next
  case (IndexAccess n l r t)
  with run show ?thesis
    by (auto simp: on_ok_Inr_iff simp del: post_index_access.simps
        dest!: post_index_writes writes_root)
next
  case (Literal n v t sub)
  with run show ?thesis by (auto simp: set_val_def)
next
  case (MemberAccess n m e)
  with run show ?thesis
    by (auto simp: on_ok_Inr_iff simp del: post_member_access.simps
        dest!: post_member_writes writes_root)
next
  case (NewArray n d t)
  with run show ?thesis by (auto simp: set_val_def split_beta)
next
  case (NewContract n c v s)
  with run show ?thesis
    by (auto simp: on_ok_Inr_iff simp del: post_new_contract.simps
        dest!: post_new_contract_writes writes_root)
next
  case (NewElementaryType n t)
  with run show ?thesis by (auto simp: set_val_def split_beta)
next
  case (TupleExpression n es a)
  with run show ?thesis
    by (auto simp: on_ok_Inr_iff simp del: post_tuple_expression.simps
        dest!: post_tuple_writes writes_root)
next
  case (TypeConversionExpression n e t)
  with run show ?thesis
    by (auto simp: on_ok_Inr_iff simp del: post_type_conversion.simps
        dest!: post_type_conversion_writes writes_root)
next
  case (UnaryOperation n e t)
  with run nofold show ?thesis
    by (auto simp: on_ok_Inr_iff simp del: post_unary_operation.simps
        dest!: post_unary_writes writes_root)
qed

text \<open>
  The instructions that a step appends: each rule tags its instructions with its own node
  or with none, and only the rule for calls appends a placeholder call.
\<close>

lemma placeholder_at_append [simp]:
  "placeholder_at c (xs @ ys) \<longleftrightarrow> placeholder_at c xs \<or> placeholder_at c ys"
  by (auto simp: placeholder_at_def list_ex_iff)

lemma placeholder_at_Nil [simp]: "\<not> placeholder_at c []"
  by (simp add: placeholder_at_def)

lemma placeholder_at_Cons [simp]:
  "placeholder_at c (x # xs) \<longleftrightarrow> (is_TmpCall (fst x) \<and> snd x = Some c) \<or> placeholder_at c xs"
  by (simp add: placeholder_at_def)

lemma tagged_in_append [simp]: "tagged_in S (xs @ ys) \<longleftrightarrow> tagged_in S xs \<and> tagged_in S ys"
  by (auto simp: tagged_in_def)

lemma tagged_in_Nil [simp]: "tagged_in S []"
  by (simp add: tagged_in_def)

lemma tagged_in_Cons [simp]:
  "tagged_in S (x # xs) \<longleftrightarrow> set_option (snd x) \<subseteq> S \<and> tagged_in S xs"
  by (simp add: tagged_in_def)

lemma tagged_in_mono: "tagged_in S xs \<Longrightarrow> S \<subseteq> T \<Longrightarrow> tagged_in T xs"
  by (auto simp: tagged_in_def)

lemma tagged_no_placeholder: "tagged_in S xs \<Longrightarrow> c \<notin> S \<Longrightarrow> \<not> placeholder_at c xs"
  by (auto simp: tagged_in_def placeholder_at_def list_ex_iff)

lemma result_append_ir [simp]: "result (append_ir operation e st) = result st @ [(operation, e)]"
  by (simp add: append_ir_def)

lemma result_set_val [simp]: "result (set_val n v st) = result st"
  by (simp add: set_val_def)

lemma result_set_type [simp]: "result (set_type v t st) = result st"
  by (cases v) simp_all

lemma result_new_temporary [simp]: "result (snd (new_temporary l st)) = result st"
  by (simp add: new_temporary_def)

lemma result_new_reference [simp]: "result (snd (new_reference st)) = result st"
  by (simp add: new_reference_def)

lemma result_new_tuple [simp]: "result (snd (new_tuple st)) = result st"
  by (simp add: new_tuple_def)

lemma emits_refl: "emits n {} st st"
  by (simp add: emits_def)

lemma emits_result: "emits n M st1 st' \<Longrightarrow> result st1 = result st \<Longrightarrow> emits n M st st'"
  by (simp add: emits_def)

lemma emits_trans: "emits n {} st st1 \<Longrightarrow> emits n {} st1 st2 \<Longrightarrow> emits n {} st st2"
  by (auto simp: emits_def)

lemma lower_binary_emits: "lower_binary n t l r st = Inr st' \<Longrightarrow> emits n {} st st'"
  by (auto simp: emits_def split_beta Let_def split: option.splits if_splits)

lemma lower_unary_emits: "lower_unary n t v st = Inr st' \<Longrightarrow> emits n {} st st'"
  by (cases t) (auto simp: emits_def split_beta Let_def on_ok_Inr_iff)

lemma emits_after_append:
  "emits n {} (append_ir x (Some n) st) st' \<Longrightarrow> emits n {} st st'"
  by (auto simp: emits_def)

lemma assign_each_emits:
  "assign_each n ls rs t rt st = Inr st' \<Longrightarrow> emits n {} st st'"
  by (induction n ls rs t rt st rule: assign_each.induct)
     (auto simp: on_ok_Inr_iff emits_refl split: if_splits intro: emits_after_append)

lemma unpack_each_emits: "emits n {} st (unpack_each n idx ls right st)"
  by (auto simp: emits_def unpack_each_result tagged_in_def)

lemma member_min_max_emits: "member_min_max env n m as st = Inr st' \<Longrightarrow> emits n {} st st'"
  by (auto simp: emits_def member_min_max_def on_ok_Inr_iff split_beta split: list.splits)

lemma assign_values_emits: "assign_values n t rt l r st = Inr st' \<Longrightarrow> emits n {} st st'"
  using unpack_each_emits[of n st]
  by (auto simp: assign_values_def on_ok_Inr_iff emits_def dest!: assign_each_emits
      split: option.splits if_splits bool.splits)

lemma member_default_emits:
  assumes a: "member_default env n m expr st = Inr st'"
  shows "emits n {} st st'"
proof (cases "is_Variable expr \<and> type_of st expr = Inr (Some address)
    \<and> m \<in> {''balance'', ''code'', ''codehash''}")
  case True
  then have "member_default env n m expr st
      = (let (val, st1) = new_temporary None st; name = m @ ''(address)''
         in Inr (set_val n val (append_ir
              (SolidityCall (SolidityFunction name) 1 val (solidity_return_type env name) [expr])
              (Some n) st1)))"
    unfolding member_default_def by (rule if_P)
  with a show ?thesis by (auto simp: emits_def split_beta Let_def)
next
  case c1: False
  have e1: "member_default env n m expr st
      = (if alias_of expr \<noteq> None \<and> m \<in> {''wrap'', ''unwrap''} then Inr (set_val n expr st)
         else case contract_member expr m of
                Some v \<Rightarrow> Inr (set_val n v st)
              | None \<Rightarrow>
                  (let (val, st1) = new_reference st in
                   Inr (set_val n val (append_ir
                     (Member expr (Constant m None None) val) (Some n) st1))))"
    unfolding member_default_def by (rule if_not_P) (rule c1)
  show ?thesis
  proof (cases "alias_of expr \<noteq> None \<and> m \<in> {''wrap'', ''unwrap''}")
    case True
    then have "member_default env n m expr st = Inr (set_val n expr st)"
      unfolding e1 by (rule if_P)
    with a show ?thesis by (auto simp: emits_def)
  next
    case c2: False
    have "member_default env n m expr st
      = (case contract_member expr m of
           Some v \<Rightarrow> Inr (set_val n v st)
         | None \<Rightarrow>
             (let (val, st1) = new_reference st in
              Inr (set_val n val (append_ir
                (Member expr (Constant m None None) val) (Some n) st1))))"
      unfolding e1 by (rule if_not_P) (rule c2)
    with a show ?thesis
      by (cases "contract_member expr m") (auto simp: emits_def split_beta)
  qed
qed

text \<open>Every rule that succeeds has appended instructions of its own node only.\<close>

lemma post_assignement_emits:
  assumes "post_assignement_operation env (AssignmentOperation n l r t rt) st = Inr st'"
  shows "emits n {} st st'"
proof -
  from assms obtain lv st1 rv st2 where g1: "get (nid l) st = Inr (lv, st1)"
    and g2: "get (nid r) st1 = Inr (rv, st2)" and a: "assign_values n t rt lv rv st2 = Inr st'"
    by (auto simp: on_ok_Inr_iff)
  from get_Inr[OF g1] get_Inr[OF g2] have "result st2 = result st" by simp
  with assign_values_emits[OF a] show ?thesis by (rule emits_result)
qed

lemma post_binary_emits:
  assumes "post_binary_operation env (BinaryOperation n l r t) st = Inr st'"
    and "\<not> generates_certik_ir env"
  shows "emits n {} st st'"
proof -
  from assms obtain lv st1 rv st2 where g1: "get (nid l) st = Inr (lv, st1)"
    and g2: "get (nid r) st1 = Inr (rv, st2)" and a: "lower_binary n t lv rv st2 = Inr st'"
    by (auto simp: on_ok_Inr_iff folded_def simp del: lower_binary.simps)
  from get_Inr[OF g1] get_Inr[OF g2] have "result st2 = result st" by simp
  with lower_binary_emits[OF a] show ?thesis by (rule emits_result)
qed

lemma post_unary_emits:
  assumes "post_unary_operation env (UnaryOperation n e t) st = Inr st'"
    and "\<not> generates_certik_ir env"
  shows "emits n {} st st'"
proof -
  from assms obtain v st1 where g1: "get (nid e) st = Inr (v, st1)"
    and a: "lower_unary n t v st1 = Inr st'"
    by (auto simp: on_ok_Inr_iff folded_def)
  from get_Inr[OF g1] have "result st1 = result st" by simp
  with lower_unary_emits[OF a] show ?thesis by (rule emits_result)
qed

lemma post_index_emits:
  assumes "post_index_access env (IndexAccess n l r t) st = Inr st'"
  shows "emits n {} st st'"
proof -
  from assms obtain lv st1 rv st2 where g1: "get (nid l) st = Inr (lv, st1)"
    and g2: "get (nid r) st1 = Inr (rv, st2)"
    and a: "(case type_value lv of
       Some left_type \<Rightarrow>
         (case constant_value rv of
            None \<Rightarrow> Inl AssertionError
          | Some v \<Rightarrow> Inr (set_val n (TypeV (ArrayType left_type v)) st2))
     | None \<Rightarrow>
         (let (val, st) = new_reference st2;
              (left, st) =
                (case list_items lv of
                   Some init_array_right \<Rightarrow>
                     (let (init_array_val, st) = new_temporary None st in
                      (init_array_val, append_ir (InitArray lv init_array_val) (Some n) st))
                 | None \<Rightarrow> (lv, st))
          in Inr (set_val n val (append_ir (Index val left rv t) (Some n) st)))) = Inr st'"
    by (auto simp: on_ok_Inr_iff)
  from get_Inr[OF g1] get_Inr[OF g2] have st2: "result st2 = result st" by simp
  from a have "emits n {} st2 st'"
    by (auto simp: emits_def split_beta Let_def split: option.splits)
  then show ?thesis using st2 by (rule emits_result)
qed

lemma post_member_emits:
  assumes "post_member_access env (MemberAccess n m e) st = Inr st'"
  shows "emits n {} st st'"
proof -
  from assms obtain v st1 where g1: "get (nid e) st = Inr (v, st1)"
    and a: "(case (if m \<in> {''min'', ''max''} then type_call_arguments e else None) of
       Some as \<Rightarrow> member_min_max env n m as st1
     | None \<Rightarrow> member_default env n m v st1) = Inr st'"
    by (auto simp: on_ok_Inr_iff)
  from a have "emits n {} st1 st'"
    by (cases "if m \<in> {''min'', ''max''} then type_call_arguments e else None")
       (auto dest: member_min_max_emits member_default_emits simp del: type_call_arguments.simps)
  moreover from get_Inr[OF g1] have "result st1 = result st" by simp
  ultimately show ?thesis by (rule emits_result)
qed

lemma post_type_conversion_emits:
  assumes "post_type_conversion env (TypeConversionExpression n e t) st = Inr st'"
  shows "emits n {} st st'"
proof -
  from assms obtain v st1 where g1: "get (nid e) st = Inr (v, st1)"
    and a: "emits n {} st1 st'"
    by (auto simp: on_ok_Inr_iff split_beta Let_def emits_def)
  moreover from get_Inr[OF g1] have "result st1 = result st" by simp
  ultimately show ?thesis by (auto intro: emits_result)
qed

lemma post_tuple_emits:
  assumes "post_tuple_expression env (TupleExpression n es a) st = Inr st'"
  shows "emits n {} st st'"
proof -
  from assms obtain vs st1 where g1: "get_elements es st = Inr (vs, st1)"
    and a: "emits n {} st1 st'"
    by (auto simp: on_ok_Inr_iff split_beta Let_def emits_def split: if_splits list.splits)
  moreover from get_elements_Inr[OF g1] have "result st1 = result st" by simp
  ultimately show ?thesis by (auto intro: emits_result)
qed

lemma post_new_contract_emits:
  assumes "post_new_contract env (NewContract n c v s) st = Inr st'"
  shows "emits n {} st st'"
proof -
  define st0 where "st0 = snd (new_temporary None st)"
  from assms obtain cv st1 cs st2 where g1: "get_optional v st0 = Inr (cv, st1)"
    and g2: "get_optional s st1 = Inr (cs, st2)" and a: "emits n {} st2 st'"
    by (auto simp: on_ok_Inr_iff split_beta Let_def st0_def emits_def)
  from get_optional_Inr[OF g1] get_optional_Inr[OF g2]
  have "result st2 = result st" by (simp add: st0_def)
  with a show ?thesis by (rule emits_result)
qed

text \<open>
  The rule for calls: only the last branch appends a placeholder call, and it has read the
  entries of the modifiers.
\<close>

lemma call_by_name_emits:
  assumes a: "call_by_name n called name args tc g v s st = Inr st'"
  shows "emits n (nid ` set (present [g, v, s])) st st'"
proof (cases "name \<in> {''caller()'', ''origin()'', ''extcodesize(uint256)'', ''selfbalance()'',
      ''address()'', ''callvalue()''}")
  case True
  with a show ?thesis
    by (auto simp: emits_def call_by_name_def split_beta Let_def split: if_splits list.splits)
next
  case False
  define st0 where "st0 = snd (if returns_tuple tc then new_tuple st else new_temporary None st)"
  have r0: "result st0 = result st" by (simp add: st0_def)
  from a False obtain cg st1 cv st2 cs st3 x operation where
    g: "get_optional g st0 = Inr (cg, st1)" and v: "get_optional v st1 = Inr (cv, st2)"
    and s: "get_optional s st2 = Inr (cs, st3)"
    and st': "st' = set_val n x (append_ir operation (Some n) st3)"
    by (auto simp: call_by_name_def split_beta on_ok_Inr_iff st0_def split: if_splits)
  have "st3 = cleared (nid ` set (present [g, v, s])) st0"
    using get_optional_Inr[OF g] get_optional_Inr[OF v] get_optional_Inr[OF s]
    by (cases g; cases v; cases s) (simp_all add: Un_commute insert_commute)
  then show ?thesis
    using st' r0 by (auto simp: emits_def set_val_def)
qed

lemma post_call_emits:
  assumes "post_call_expression env (CallExpression n c as tc g v s) st = Inr st'"
  shows "emits n (nid ` set (present [g, v, s])) st st'"
proof -
  from assms obtain called st1 args st2 where g1: "get (nid c) st = Inr (called, st1)"
    and g2: "get_args as st1 = Inr (args, st2)"
    and a: "(let st = append_arguments n args st2 in
     if is_Function called then
       (if returns_tuple tc then
          (let (val, st) = new_tuple st in
           Inr (set_val n val (append_ir (InternalCall called (length args) val tc) (Some n) st)))
        else if length (function_returns called) \<le> 1 then
          (let (val, st) = new_temporary
                 (case function_returns called of [location] \<Rightarrow> location | _ \<Rightarrow> None) st in
           Inr (set_val n val (append_ir (InternalCall called (length args) val tc) (Some n) st)))
        else Inl AssertionError)
     else
       (case wrap_destination called c args of
          Some dest_type \<Rightarrow>
            (let (val, st) = new_temporary None st in
             case args of
               [] \<Rightarrow> Inl IndexError
             | arg # _ \<Rightarrow>
                 (let st = set_type val dest_type st;
                      st = append_ir (TypeConversion val arg dest_type) (Some n) st
                  in Inr (set_val n val st)))
        | None \<Rightarrow>
            (case name_of called of
               None \<Rightarrow> Inl AttributeError
             | Some name \<Rightarrow> call_by_name n called name args tc g v s st))) = Inr st'"
    by (auto simp: on_ok_Inr_iff)
  define st3 where "st3 = append_arguments n args st2"
  from get_Inr[OF g1] get_args_Inr[OF g2]
  have r3: "result st3 = result st @ map (\<lambda>x. (Argument x, Some n)) args"
    by (simp add: st3_def append_arguments_result)
  have args: "tagged_in {n} (map (\<lambda>x. (Argument x, Some n)) args)"
    "\<not> placeholder_at n (map (\<lambda>x. (Argument x, Some n)) args)"
    by (auto simp: tagged_in_def placeholder_at_def list_ex_iff)
  have "emits n (nid ` set (present [g, v, s])) st3 st'"
  proof (cases "is_Function called")
    case True
    with a show ?thesis
      by (auto simp: emits_def split_beta Let_def st3_def split: if_splits)
  next
    case nf: False
    show ?thesis
    proof (cases "wrap_destination called c args")
      case (Some dest_type)
      with a nf show ?thesis
        by (auto simp: emits_def split_beta Let_def st3_def split: list.splits)
    next
      case None
      with a nf obtain name where "call_by_name n called name args tc g v s st3 = Inr st'"
        by (auto simp: st3_def split: option.splits)
      then show ?thesis by (rule call_by_name_emits)
    qed
  qed
  then show ?thesis
    using r3 args by (auto simp: emits_def)
qed

text \<open>
  Steps on disjoint sets of nodes compose, and a rule on top of the walks of its children
  adds its own modifiers to the pairs that are accounted for.
\<close>

lemma consumed_refl: "consumed {} {} st st"
  by (simp add: consumed_def)

lemma consumed_seq:
  assumes c1: "consumed S1 P1 st st1" and c2: "consumed S2 P2 st1 st2"
    and k: "kept S2 C st1 st2" and dis: "S1 \<inter> S2 = {}"
  shows "consumed (S1 \<union> S2) (P1 \<union> P2) st st2"
proof -
  from c1 obtain new1 where s1: "fst ` P1 \<subseteq> S1" "snd ` P1 \<subseteq> S1"
    and r1: "result st1 = result st @ new1" and t1: "tagged_in S1 new1"
    and p1: "\<forall>c k. (c, k) \<in> P1 \<longrightarrow> placeholder_at c new1 \<longrightarrow> scratch st1 k = None"
    unfolding consumed_def by blast
  from c2 obtain new2 where s2: "fst ` P2 \<subseteq> S2" "snd ` P2 \<subseteq> S2"
    and r2: "result st2 = result st1 @ new2" and t2: "tagged_in S2 new2"
    and p2: "\<forall>c k. (c, k) \<in> P2 \<longrightarrow> placeholder_at c new2 \<longrightarrow> scratch st2 k = None"
    unfolding consumed_def by blast
  have "\<forall>c k. (c, k) \<in> P1 \<union> P2 \<longrightarrow> placeholder_at c (new1 @ new2) \<longrightarrow> scratch st2 k = None"
  proof (intro allI impI)
    fix c k assume in12: "(c, k) \<in> P1 \<union> P2" and ph: "placeholder_at c (new1 @ new2)"
    show "scratch st2 k = None"
    proof (cases "(c, k) \<in> P1")
      case True
      then have cS: "c \<in> S1" and kS: "k \<in> S1" using s1 by force+
      with dis have "c \<notin> S2" "k \<notin> S2" by auto
      with ph tagged_no_placeholder[OF t2] have "placeholder_at c new1" by auto
      with p1 True have "scratch st1 k = None" by blast
      with k \<open>k \<notin> S2\<close> show ?thesis by (simp add: kept_def)
    next
      case False
      with in12 have in2: "(c, k) \<in> P2" by simp
      then have "c \<in> S2" using s2 by force
      with dis have "c \<notin> S1" by auto
      with ph tagged_no_placeholder[OF t1] have "placeholder_at c new2" by auto
      with p2 in2 show ?thesis by blast
    qed
  qed
  moreover have "tagged_in (S1 \<union> S2) (new1 @ new2)"
    using t1 t2 by (auto intro: tagged_in_mono)
  moreover have "result st2 = result st @ new1 @ new2" using r1 r2 by simp
  moreover have "fst ` (P1 \<union> P2) \<subseteq> S1 \<union> S2" "snd ` (P1 \<union> P2) \<subseteq> S1 \<union> S2"
    using s1 s2 by auto
  ultimately show ?thesis unfolding consumed_def by blast
qed

lemma consumed_step:
  assumes c1: "consumed S P st st1" and e: "emits n M st1 st'"
    and w: "writes n R M' st1 st'" and fresh: "n \<notin> S" and sub: "M \<subseteq> S"
  shows "consumed (insert n S) (P \<union> {n} \<times> M) st st'"
proof -
  from c1 obtain new1 where s1: "fst ` P \<subseteq> S" "snd ` P \<subseteq> S"
    and r1: "result st1 = result st @ new1" and t1: "tagged_in S new1"
    and p1: "\<forall>c k. (c, k) \<in> P \<longrightarrow> placeholder_at c new1 \<longrightarrow> scratch st1 k = None"
    unfolding consumed_def by blast
  from e obtain new2 where r2: "result st' = result st1 @ new2" and t2: "tagged_in {n} new2"
    and p2: "placeholder_at n new2 \<Longrightarrow> \<forall>k \<in> M - {n}. scratch st' k = None"
    by (auto simp: emits_def)
  from w have frame: "\<And>k. k \<noteq> n \<Longrightarrow> scratch st1 k = None \<Longrightarrow> scratch st' k = None"
    by (auto simp: writes_def)
  have "\<forall>c k. (c, k) \<in> P \<union> {n} \<times> M \<longrightarrow> placeholder_at c (new1 @ new2) \<longrightarrow> scratch st' k = None"
  proof (intro allI impI)
    fix c k assume in12: "(c, k) \<in> P \<union> {n} \<times> M" and ph: "placeholder_at c (new1 @ new2)"
    show "scratch st' k = None"
    proof (cases "(c, k) \<in> P")
      case True
      then have cS: "c \<in> S" and kS: "k \<in> S" using s1 by force+
      with fresh have "c \<notin> {n}" "k \<noteq> n" by auto
      with ph tagged_no_placeholder[OF t2] have "placeholder_at c new1" by auto
      with p1 True have "scratch st1 k = None" by blast
      from frame[OF \<open>k \<noteq> n\<close> this] show ?thesis .
    next
      case False
      with in12 have c: "c = n" and kM: "k \<in> M" by auto
      with sub fresh have "k \<noteq> n" by auto
      from c fresh ph tagged_no_placeholder[OF t1] have "placeholder_at n new2" by auto
      from p2[OF this] kM \<open>k \<noteq> n\<close> show ?thesis by simp
    qed
  qed
  moreover have "tagged_in (insert n S) (new1 @ new2)"
    using t1 t2 by (auto intro: tagged_in_mono)
  moreover have "result st' = result st @ new1 @ new2" using r1 r2 by simp
  moreover have "fst ` (P \<union> {n} \<times> M) \<subseteq> insert n S" "snd ` (P \<union> {n} \<times> M) \<subseteq> insert n S"
    using s1 sub by auto
  ultimately show ?thesis unfolding consumed_def by blast
qed

lemma consumed_leaf:
  "result st' = result st @ new \<Longrightarrow> tagged_in {n} new \<Longrightarrow> consumed {n} {} st st'"
  by (auto simp: consumed_def)

text \<open>
  The walk of an expression with distinct nodes appends instructions of its own nodes only,
  and wherever it lowered a call to a placeholder call it left no entry of a modifier of
  that call.
\<close>

lemma visit_consumed:
  "\<not> generates_certik_ir env \<Longrightarrow> distinct (ids e) \<Longrightarrow> visit_expression env e st = Inr st' \<Longrightarrow>
   consumed (set (ids e)) (set (call_options e)) st st'"
  "\<not> generates_certik_ir env \<Longrightarrow> distinct (ids_optional oe) \<Longrightarrow>
   visit_optional env oe st0 = Inr st0' \<Longrightarrow>
   consumed (set (ids_optional oe)) (set (call_options_optional oe)) st0 st0'"
  "\<not> generates_certik_ir env \<Longrightarrow> distinct (ids_each es) \<Longrightarrow>
   visit_each env es st1 = Inr st1' \<Longrightarrow>
   consumed (set (ids_each es)) (set (call_options_each es)) st1 st1'"
proof (induction env e st and env oe st0 and env es st1 arbitrary: st' and st0' and st1'
    rule: visit_expression_visit_optional_visit_each.induct)
  case (1 env n l r t rt st)
  from "1.prems" obtain sa sb where a: "visit_expression env l st = Inr sa"
    and b: "visit_expression env r sa = Inr sb"
    and p: "post_assignement_operation env (AssignmentOperation n l r t rt) sb = Inr st'"
    by (auto simp: on_ok_Inr_iff)
  from "1.prems" have d: "distinct (ids l)" "distinct (ids r)" "set (ids l) \<inter> set (ids r) = {}"
    "n \<notin> set (ids l) \<union> set (ids r)" by auto
  note c2 = consumed_seq[OF "1.IH"(1)[OF "1.prems"(1) d(1) a]
      "1.IH"(2)[OF "1.prems"(1) d(2) b] visit_kept(1)[OF "1.prems"(1) d(2) b] d(3)]
  from consumed_step[OF c2 post_assignement_emits[OF p] post_assignement_writes[OF p] d(4)]
  show ?case by simp
next
  case (2 env n l r t st)
  from "2.prems" obtain sa sb where a: "visit_expression env l st = Inr sa"
    and b: "visit_expression env r sa = Inr sb"
    and p: "post_binary_operation env (BinaryOperation n l r t) sb = Inr st'"
    by (auto simp: on_ok_Inr_iff simp del: post_binary_operation.simps)
  from "2.prems" have d: "distinct (ids l)" "distinct (ids r)" "set (ids l) \<inter> set (ids r) = {}"
    "n \<notin> set (ids l) \<union> set (ids r)" by auto
  note c2 = consumed_seq[OF "2.IH"(1)[OF "2.prems"(1) d(1) a]
      "2.IH"(2)[OF "2.prems"(1) d(2) b] visit_kept(1)[OF "2.prems"(1) d(2) b] d(3)]
  from consumed_step[OF c2 post_binary_emits[OF p "2.prems"(1)] post_binary_writes[OF p "2.prems"(1)] d(4)]
  show ?case by simp
next
  case (3 env n c as tc g v s st)
  from "3.prems" obtain sa sb sc sd se where a: "visit_expression env c st = Inr sa"
    and b: "visit_each env as sa = Inr sb"
    and cv: "visit_optional env v sb = Inr sc"
    and cg: "visit_optional env g sc = Inr sd"
    and cs: "visit_optional env s sd = Inr se"
    and p: "post_call_expression env (CallExpression n c as tc g v s) se = Inr st'"
    by (auto simp: on_ok_Inr_iff simp del: post_call_expression.simps)
  from "3.prems" have d: "distinct (ids c)" "distinct (ids_each as)" "distinct (ids_optional g)"
    "distinct (ids_optional v)" "distinct (ids_optional s)"
    and i1: "set (ids c) \<inter> set (ids_each as) = {}"
    and i2: "(set (ids c) \<union> set (ids_each as)) \<inter> set (ids_optional v) = {}"
    and i3: "(set (ids c) \<union> set (ids_each as) \<union> set (ids_optional v)) \<inter> set (ids_optional g) = {}"
    and i4: "(set (ids c) \<union> set (ids_each as) \<union> set (ids_optional v) \<union> set (ids_optional g))
        \<inter> set (ids_optional s) = {}"
    and fresh: "n \<notin> set (ids c) \<union> set (ids_each as) \<union> set (ids_optional v)
        \<union> set (ids_optional g) \<union> set (ids_optional s)"
    by auto
  note nf = "3.prems"(1)
  note c1 = "3.IH"(1)[OF nf d(1) a]
  note c2 = consumed_seq[OF c1 "3.IH"(2)[OF nf d(2) b] visit_kept(3)[OF nf d(2) b] i1]
  note c3 = consumed_seq[OF c2 "3.IH"(3)[OF nf d(4) cv] visit_kept(2)[OF nf d(4) cv] i2]
  note c4 = consumed_seq[OF c3 "3.IH"(4)[OF nf d(3) cg] visit_kept(2)[OF nf d(3) cg] i3]
  note c5 = consumed_seq[OF c4 "3.IH"(5)[OF nf d(5) cs] visit_kept(2)[OF nf d(5) cs] i4]
  have sub: "nid ` set (present [g, v, s])
      \<subseteq> set (ids c) \<union> set (ids_each as) \<union> set (ids_optional v) \<union> set (ids_optional g)
        \<union> set (ids_optional s)"
    using root_in_ids_optional[of g] root_in_ids_optional[of v] root_in_ids_optional[of s]
    by (auto simp: present_three)
  have "consumed (insert n (set (ids c) \<union> set (ids_each as) \<union> set (ids_optional v)
        \<union> set (ids_optional g) \<union> set (ids_optional s)))
     (set (call_options c) \<union> set (call_options_each as) \<union> set (call_options_optional v)
        \<union> set (call_options_optional g) \<union> set (call_options_optional s)
        \<union> {n} \<times> nid ` set (present [g, v, s])) st st'"
    by (rule consumed_step[OF c5 post_call_emits[OF p] post_call_writes[OF p] fresh sub])
  moreover have "{n} \<times> nid ` set (present [g, v, s]) = (\<lambda>m. (n, nid m)) ` set (present [g, v, s])"
    by auto
  ultimately show ?case by (simp add: Un_ac insert_commute)
next
  case (4 env n c a b st)
  then show ?case by (auto simp: on_ok_Inr_iff)
next
  case (5 env n t st)
  then show ?case by (auto intro!: consumed_leaf[where new="[]"])
next
  case (6 env n v st)
  then show ?case by (auto intro!: consumed_leaf[where new="[]"])
next
  case (7 env n l r t st)
  from "7.prems" obtain sa sb where a: "visit_expression env l st = Inr sa"
    and b: "visit_expression env r sa = Inr sb"
    and p: "post_index_access env (IndexAccess n l r t) sb = Inr st'"
    by (auto simp: on_ok_Inr_iff simp del: post_index_access.simps)
  from "7.prems" have d: "distinct (ids l)" "distinct (ids r)" "set (ids l) \<inter> set (ids r) = {}"
    "n \<notin> set (ids l) \<union> set (ids r)" by auto
  note c2 = consumed_seq[OF "7.IH"(1)[OF "7.prems"(1) d(1) a]
      "7.IH"(2)[OF "7.prems"(1) d(2) b] visit_kept(1)[OF "7.prems"(1) d(2) b] d(3)]
  from consumed_step[OF c2 post_index_emits[OF p] post_index_writes[OF p] d(4)]
  show ?case by simp
next
  case (8 env n v t sub st)
  then show ?case by (auto intro!: consumed_leaf[where new="[]"])
next
  case (9 env n m e st)
  from "9.prems" obtain sa where a: "visit_expression env e st = Inr sa"
    and p: "post_member_access env (MemberAccess n m e) sa = Inr st'"
    by (auto simp: on_ok_Inr_iff simp del: post_member_access.simps)
  from "9.prems" have d: "distinct (ids e)" "n \<notin> set (ids e)" by auto
  from consumed_step[OF "9.IH"[OF "9.prems"(1) d(1) a] post_member_emits[OF p]
      post_member_writes[OF p] d(2)]
  show ?case by simp
next
  case (10 env n d t st)
  then show ?case
    by (auto simp: split_beta consumed_def)
next
  case (11 env n c v s st)
  from "11.prems" obtain sa sb where a: "visit_optional env v st = Inr sa"
    and b: "visit_optional env s sa = Inr sb"
    and p: "post_new_contract env (NewContract n c v s) sb = Inr st'"
    by (auto simp: on_ok_Inr_iff simp del: post_new_contract.simps)
  from "11.prems" have d: "distinct (ids_optional v)" "distinct (ids_optional s)"
    "set (ids_optional v) \<inter> set (ids_optional s) = {}"
    "n \<notin> set (ids_optional v) \<union> set (ids_optional s)" by auto
  note c2 = consumed_seq[OF "11.IH"(1)[OF "11.prems"(1) d(1) a]
      "11.IH"(2)[OF "11.prems"(1) d(2) b] visit_kept(2)[OF "11.prems"(1) d(2) b] d(3)]
  from consumed_step[OF c2 post_new_contract_emits[OF p] post_new_contract_writes[OF p] d(4)]
  show ?case by simp
next
  case (12 env n t st)
  then show ?case
    by (auto simp: split_beta consumed_def)
next
  case (13 env n es a st)
  from "13.prems" obtain sa where a: "visit_each env es st = Inr sa"
    and p: "post_tuple_expression env (TupleExpression n es a) sa = Inr st'"
    by (auto simp: on_ok_Inr_iff simp del: post_tuple_expression.simps)
  from "13.prems" have d: "distinct (ids_each es)" "n \<notin> set (ids_each es)" by auto
  from consumed_step[OF "13.IH"[OF "13.prems"(1) d(1) a] post_tuple_emits[OF p]
      post_tuple_writes[OF p] d(2)]
  show ?case by simp
next
  case (14 env n e t st)
  from "14.prems" obtain sa where a: "visit_expression env e st = Inr sa"
    and p: "post_type_conversion env (TypeConversionExpression n e t) sa = Inr st'"
    by (auto simp: on_ok_Inr_iff simp del: post_type_conversion.simps)
  from "14.prems" have d: "distinct (ids e)" "n \<notin> set (ids e)" by auto
  from consumed_step[OF "14.IH"[OF "14.prems"(1) d(1) a] post_type_conversion_emits[OF p]
      post_type_conversion_writes[OF p] d(2)]
  show ?case by simp
next
  case (15 env n e t st)
  from "15.prems" obtain sa where a: "visit_expression env e st = Inr sa"
    and p: "post_unary_operation env (UnaryOperation n e t) sa = Inr st'"
    by (auto simp: on_ok_Inr_iff simp del: post_unary_operation.simps)
  from "15.prems" have d: "distinct (ids e)" "n \<notin> set (ids e)" by auto
  from consumed_step[OF "15.IH"[OF "15.prems"(1) d(1) a] post_unary_emits[OF p "15.prems"(1)]
      post_unary_writes[OF p "15.prems"(1)] d(2)]
  show ?case by simp
next
  case (16 env st)
  then show ?case by (simp add: consumed_refl)
next
  case (17 env e st)
  then show ?case by simp
next
  case (18 env st)
  then show ?case by (simp add: consumed_refl)
next
  case (19 env e es st)
  from "19.prems" obtain sa where a: "visit_optional env e st = Inr sa"
    and b: "visit_each env es sa = Inr st1'"
    by (auto simp: on_ok_Inr_iff)
  from "19.prems" have d: "distinct (ids_optional e)" "distinct (ids_each es)"
    "set (ids_optional e) \<inter> set (ids_each es) = {}" by auto
  from consumed_seq[OF "19.IH"(1)[OF "19.prems"(1) d(1) a] "19.IH"(2)[OF "19.prems"(1) d(2) b]
      visit_kept(3)[OF "19.prems"(1) d(2) b] d(3)]
  show ?case by simp
qed

text \<open>The modifiers of the calls are the second components of the pairs.\<close>

lemma call_modifiers_options:
  "set (call_modifiers e) = snd ` set (call_options e)"
  "set (call_modifiers_optional oe) = snd ` set (call_options_optional oe)"
  "set (call_modifiers_each es) = snd ` set (call_options_each es)"
  by (induction e and oe and es rule: call_options_call_options_optional_call_options_each.induct)
     (auto simp: image_Un image_image)

text \<open>
  C6 (as the code has it). A read of a scratch entry returns the stored value and removes
  the entry at once, so that a second read of the same entry raises \<^verbatim>\<open>KeyError\<close>; a
  read of an entry that was never written raises \<^verbatim>\<open>KeyError\<close> as well, and no default
  is returned. When the top-level lowering of a statement has returned, with constant
  folding off and distinct nodes, the entry of the top-level node is gone if the node of
  the statement is a return node and is still there otherwise; every other node of the
  statement has no entry, the gas, value and salt modifiers included whose call was
  lowered to a placeholder call.
\<close>

theorem scratch_store_discipline:
  assumes nofold: "\<not> generates_certik_ir env"
    and d: "distinct (ids e)"
    and run: "ExpressionToSlithIR env e st = Inr st'"
  shows "(\<forall>k s v s'. get k s = Inr (v, s') \<longrightarrow>
            scratch s k = Some v \<and> scratch s' k = None \<and> get k s' = Inl KeyError)
       \<and> (\<forall>k s. scratch s k = None \<longrightarrow> get k s = Inl KeyError)
       \<and> (\<forall>k \<in> set (ids e).
            (\<forall>p \<in> set (call_options e). snd p = k \<longrightarrow> placeholder_at (fst p) (result st')) \<longrightarrow>
            (if k = nid e \<and> \<not> node_is_return env then scratch st' k \<noteq> None
             else scratch st' k = None))"
proof (intro conjI)
  show "\<forall>k s v s'. get k s = Inr (v, s') \<longrightarrow>
      scratch s k = Some v \<and> scratch s' k = None \<and> get k s' = Inl KeyError"
    by (auto simp: get_def split: option.splits)
  show "\<forall>k s. scratch s k = None \<longrightarrow> get k s = Inl KeyError"
    by (simp add: get_def)
  from run obtain st1 where v: "visit_expression env e (st\<lparr>result := []\<rparr>) = Inr st1"
    and fin: "(if node_is_return env
               then on_ok (get (nid e) st1) (\<lambda>(v, st). Inr (append_ir (Return v) (Some (nid e)) st))
               else Inr st1) = Inr st'"
    by (auto simp: ExpressionToSlithIR_def on_ok_Inr_iff)
  note k = visit_kept(1)[OF nofold d v] and r = visit_root[OF nofold v]
    and c = visit_consumed(1)[OF nofold d v]
  have sc: "scratch st' = (if node_is_return env then scratch (cleared {nid e} st1) else scratch st1)"
    and res: "\<And>c. placeholder_at c (result st') \<Longrightarrow> placeholder_at c (result st1)"
  proof -
    show "scratch st' = (if node_is_return env then scratch (cleared {nid e} st1) else scratch st1)"
    proof (cases "node_is_return env")
      case True
      with fin obtain x st2 where g: "get (nid e) st1 = Inr (x, st2)"
        and st': "st' = append_ir (Return x) (Some (nid e)) st2"
        by (auto simp: on_ok_Inr_iff)
      from get_Inr[OF g] st' True show ?thesis by simp
    next
      case False
      with fin show ?thesis by simp
    qed
    fix c assume ph: "placeholder_at c (result st')"
    show "placeholder_at c (result st1)"
    proof (cases "node_is_return env")
      case True
      with fin obtain x st2 where g: "get (nid e) st1 = Inr (x, st2)"
        and st': "st' = append_ir (Return x) (Some (nid e)) st2"
        by (auto simp: on_ok_Inr_iff)
      from get_Inr[OF g] st' ph show ?thesis by simp
    next
      case False
      with fin ph show ?thesis by simp
    qed
  qed
  show "\<forall>k \<in> set (ids e).
      (\<forall>p \<in> set (call_options e). snd p = k \<longrightarrow> placeholder_at (fst p) (result st')) \<longrightarrow>
      (if k = nid e \<and> \<not> node_is_return env then scratch st' k \<noteq> None
       else scratch st' k = None)"
  proof (intro ballI impI)
    fix j assume j: "j \<in> set (ids e)"
      and ph: "\<forall>p \<in> set (call_options e). snd p = j \<longrightarrow> placeholder_at (fst p) (result st')"
    show "if j = nid e \<and> \<not> node_is_return env then scratch st' j \<noteq> None
       else scratch st' j = None"
    proof (cases "j = nid e")
      case True
      with r sc show ?thesis by simp
    next
      case False
      have "scratch st1 j = None"
      proof (cases "j \<in> set (call_modifiers e)")
        case False
        with k j \<open>j \<noteq> nid e\<close> show ?thesis by (simp add: kept_def)
      next
        case True
        then obtain c' where in_opts: "(c', j) \<in> set (call_options e)"
          by (auto simp: call_modifiers_options)
        with ph have "placeholder_at c' (result st')" by fastforce
        then have "placeholder_at c' (result st1)" by (rule res)
        with c in_opts show ?thesis by (auto simp: consumed_def)
      qed
      with sc False show ?thesis by simp
    qed
  qed
qed

theorem scratch_store_discipline_witness:
  "(\<exists>st'. ExpressionToSlithIR return_env a_plus_c initial_state = Inr st'
      \<and> scratch st' 1 = None \<and> scratch st' 2 = None \<and> scratch st' 3 = None)
   \<and> (\<exists>st'. ExpressionToSlithIR plain_env a_plus_c initial_state = Inr st'
      \<and> scratch st' 1 = None \<and> scratch st' 2 = None \<and> scratch st' 3 \<noteq> None)
   \<and> (\<exists>st'. ExpressionToSlithIR return_env option_value_call initial_state = Inr st'
      \<and> placeholder_at 7 (result st')
      \<and> scratch st' 1 = None \<and> scratch st' 2 = None \<and> scratch st' 4 = None
      \<and> scratch st' 6 = None \<and> scratch st' 7 = None)
   \<and> get 1 initial_state = Inl KeyError"
proof -
  have n1: "\<not> generates_certik_ir return_env" and n2: "\<not> generates_certik_ir plain_env"
    by (simp_all add: return_env_def plain_env_def)
  have d: "distinct (ids a_plus_c)"
    by (simp add: a_plus_c_def)
  have d3: "distinct (ids option_value_call)"
    by (simp add: option_value_call_def empty_string_def)
  have "\<exists>st'. ExpressionToSlithIR return_env a_plus_c initial_state = Inr st'"
    by (simp add: ExpressionToSlithIR_def a_plus_c_def return_env_def plain_env_def
        initial_state_def get_def set_val_def folded_def new_temporary_def append_ir_def)
  then obtain s1 where r1: "ExpressionToSlithIR return_env a_plus_c initial_state = Inr s1" ..
  have "\<exists>st'. ExpressionToSlithIR plain_env a_plus_c initial_state = Inr st'"
    by (simp add: ExpressionToSlithIR_def a_plus_c_def plain_env_def
        initial_state_def get_def set_val_def folded_def new_temporary_def append_ir_def)
  then obtain s2 where r2: "ExpressionToSlithIR plain_env a_plus_c initial_state = Inr s2" ..
  have "\<exists>st'. ExpressionToSlithIR return_env option_value_call initial_state = Inr st'
      \<and> placeholder_at 7 (result st')"
    by (simp add: ExpressionToSlithIR_def option_value_call_def empty_string_def return_env_def
        plain_env_def initial_state_def get_def set_val_def new_reference_def new_tuple_def
        append_ir_def member_default_def contract_member_def var_dst_def var_v_def address_def
        wrap_destination_def call_by_name_def returns_tuple_def placeholder_at_def)
  then obtain s3 where r3: "ExpressionToSlithIR return_env option_value_call initial_state = Inr s3"
    and p3: "placeholder_at 7 (result s3)" by blast
  note t1 = scratch_store_discipline[OF n1 d r1, THEN conjunct2, THEN conjunct2]
    and t2 = scratch_store_discipline[OF n2 d r2, THEN conjunct2, THEN conjunct2]
    and t3 = scratch_store_discipline[OF n1 d3 r3, THEN conjunct2, THEN conjunct2]
    and t4 = scratch_store_discipline[OF n1 d r1, THEN conjunct2, THEN conjunct1, rule_format,
      of initial_state 1]
  have "scratch s1 1 = None \<and> scratch s1 2 = None \<and> scratch s1 3 = None"
    using t1 by (simp add: a_plus_c_def return_env_def plain_env_def)
  moreover have "scratch s2 1 = None \<and> scratch s2 2 = None \<and> scratch s2 3 \<noteq> None"
    using t2 by (simp add: a_plus_c_def plain_env_def)
  moreover have "scratch s3 1 = None \<and> scratch s3 2 = None \<and> scratch s3 4 = None
      \<and> scratch s3 6 = None \<and> scratch s3 7 = None"
    using t3 p3 by (simp add: option_value_call_def empty_string_def return_env_def plain_env_def)
  moreover have "get 1 initial_state = Inl KeyError"
    using t4 by (simp add: initial_state_def)
  ultimately show ?thesis using r1 r2 r3 p3 by blast
qed

text \<open>
  C6 as stated fails: after the top-level lowering of the statement \<^verbatim>\<open>a = c\<close> on a node
  that is no return node, the entry of the assignment itself is still in the scratch store.
  With constant folding on, the entries of the operands of a folded operation stay as well,
  also on a return node: the rule returns before it reads them. And on a return node with
  folding off, the entry of a value option stays when its call is lowered to an internal
  call: only the placeholder branch reads the options.
\<close>

theorem top_level_entry_remains:
  "recorded 3 (ExpressionToSlithIR plain_env
      (AssignmentOperation 3 (Identifier 1 var_a) (Identifier 2 var_c) ASSIGN None) initial_state)
     = Some var_a
   \<and> emitted (ExpressionToSlithIR plain_env
      (AssignmentOperation 3 (Identifier 1 var_a) (Identifier 2 var_c) ASSIGN None) initial_state)
     = [(Assignment var_a var_c RetNone, Some 3)]
   \<and> recorded 1 (ExpressionToSlithIR (folding_env\<lparr>node_is_return := True\<rparr>) one_plus_two
      initial_state) = Some (Constant ''1'' (Some uint256) None)
   \<and> emitted (ExpressionToSlithIR (folding_env\<lparr>node_is_return := True\<rparr>) one_plus_two
      initial_state)
     = [(Return (Constant ''3'' (Some (ElementaryType ''int'')) None), Some 3)]
   \<and> recorded 2 (ExpressionToSlithIR return_env internal_value_call initial_state) = Some var_v
   \<and> emitted (ExpressionToSlithIR return_env internal_value_call initial_state)
     = [(InternalCall (Function ''f'' [None]) 0 (TemporaryVariable 0) ''uint256'', Some 3),
        (Return (TemporaryVariable 0), Some 3)]"
  by (simp add: recorded_def emitted_def ExpressionToSlithIR_def plain_env_def initial_state_def
      get_def set_val_def assign_values_def append_ir_def var_a_def var_c_def folding_env_def
      one_plus_two_def folded_def attempt_constant_folding_def str_int_def str_nat.simps
      digit_def return_env_def internal_value_call_def returns_tuple_def new_temporary_def)

subsection \<open>The base class of call operations: properties\<close>

text \<open>
  C10. On the base class of call operations, \<^verbatim>\<open>can_reenter\<close> and \<^verbatim>\<open>can_send_eth\<close>
  answer \<open>False\<close> for every instance and for every callstack argument (absent or given),
  whatever names it was constructed with and whatever arguments were stored into it
  afterwards. A call kind that can reenter or send ether therefore has to override them.
\<close>

theorem base_call_never_reenters_nor_sends_eth:
  "can_reenter c callstack = False \<and> can_send_eth c = False
   \<and> can_reenter (set_arguments args (Call_init ns)) callstack = False
   \<and> can_send_eth (set_arguments args (Call_init ns)) = False"
  by (simp add: can_reenter_def can_send_eth_def)

end
